theory Spec2Isabelle
  imports Main "HOL-Library.Word" "HOL-Library.Sublist"
begin

unbundle bit_operations_syntax

section \<open>Constants of cc2530prog.c\<close>

type_synonym byte = "8 word"

definition DEFAULT_TIMEOUT :: "32 word" where "DEFAULT_TIMEOUT = 1000"

definition CMD_ERASE :: byte where "CMD_ERASE = 0x10"
definition CMD_WR_CFG :: byte where "CMD_WR_CFG = 0x18"
definition CMD_RD_CFG :: byte where "CMD_RD_CFG = 0x20"
definition CMD_GET_PC :: byte where "CMD_GET_PC = 0x28"
definition CMD_RD_ST :: byte where "CMD_RD_ST = 0x30"
definition CMD_HALT :: byte where "CMD_HALT = 0x40"
definition CMD_RESUME :: byte where "CMD_RESUME = 0x48"
definition CMD_DBG_INST :: byte where "CMD_DBG_INST = 0x50"
definition CMD_STEP_INST :: byte where "CMD_STEP_INST = 0x58"
definition CMD_GET_BM :: byte where "CMD_GET_BM = 0x60"
definition CMD_GET_CHIP :: byte where "CMD_GET_CHIP = 0x68"
definition CMD_BURST_WR :: byte where "CMD_BURST_WR = 0x80"

definition CHIP_ERASE_BSY :: byte where "CHIP_ERASE_BSY = 0x80"
definition FCTL_BUSY :: byte where "FCTL_BUSY = 0x80"
definition CC2530_ID :: byte where "CC2530_ID = 0xA5"

definition ADDR_BUF0 :: "16 word" where "ADDR_BUF0 = 0x0000"
definition ADDR_BUF1 :: "16 word" where "ADDR_BUF1 = 0x0400"
definition ADDR_DMA_DESC :: "16 word" where "ADDR_DMA_DESC = 0x0800"

definition CH_DBG_TO_BUF0 :: byte where "CH_DBG_TO_BUF0 = 0x02"
definition CH_DBG_TO_BUF1 :: byte where "CH_DBG_TO_BUF1 = 0x04"
definition CH_BUF0_TO_FLASH :: byte where "CH_BUF0_TO_FLASH = 0x08"
definition CH_BUF1_TO_FLASH :: byte where "CH_BUF1_TO_FLASH = 0x10"

definition PROG_BLOCK_SIZE :: "16 word" where "PROG_BLOCK_SIZE = 1024"

definition X_EXT_ADDR_BASE :: "16 word" where "X_EXT_ADDR_BASE = 0x616A"
definition DBGDATA :: "16 word" where "DBGDATA = 0x6260"
definition FCTL :: "16 word" where "FCTL = 0x6270"
definition FADDRL :: "16 word" where "FADDRL = 0x6271"
definition FADDRH :: "16 word" where "FADDRH = 0x6272"
definition FWDATA :: "16 word" where "FWDATA = 0x6273"
definition X_CHIPINFO0 :: "16 word" where "X_CHIPINFO0 = 0x6276"
definition X_CHIPINFO1 :: "16 word" where "X_CHIPINFO1 = 0x6277"
definition X_MEMCTR :: "16 word" where "X_MEMCTR = 0x70C7"
definition X_DMA1CFGH :: "16 word" where "X_DMA1CFGH = 0x70D3"
definition X_DMA1CFGL :: "16 word" where "X_DMA1CFGL = 0x70D4"
definition X_DMAARM :: "16 word" where "X_DMAARM = 0x70D6"
definition X_CLKCONCMD :: "16 word" where "X_CLKCONCMD = 0x70C6"
definition X_CLKCONSTA :: "16 word" where "X_CLKCONSTA = 0x709E"

text \<open>The macros \<^verbatim>\<open>LOBYTE(w) = (uint8_t)(w)\<close> and
  \<^verbatim>\<open>HIBYTE(w) = (uint8_t)(((uint16_t)(w) >> 8) & 0xFF)\<close>.\<close>

definition LOBYTE :: "16 word \<Rightarrow> byte" where
  "LOBYTE w = ucast w"

definition HIBYTE :: "16 word \<Rightarrow> byte" where
  "HIBYTE w = ucast (drop_bit 8 w AND 0xFF)"

section \<open>The DMA descriptor table\<close>

definition dma_desc :: "byte list" where
  "dma_desc =
    [HIBYTE DBGDATA, LOBYTE DBGDATA, HIBYTE ADDR_BUF0, LOBYTE ADDR_BUF0,
     HIBYTE PROG_BLOCK_SIZE, LOBYTE PROG_BLOCK_SIZE, 31, 0x11,
     HIBYTE DBGDATA, LOBYTE DBGDATA, HIBYTE ADDR_BUF1, LOBYTE ADDR_BUF1,
     HIBYTE PROG_BLOCK_SIZE, LOBYTE PROG_BLOCK_SIZE, 31, 0x11,
     HIBYTE ADDR_BUF0, LOBYTE ADDR_BUF0, HIBYTE FWDATA, LOBYTE FWDATA,
     HIBYTE PROG_BLOCK_SIZE, LOBYTE PROG_BLOCK_SIZE, 18, 0x42,
     HIBYTE ADDR_BUF1, LOBYTE ADDR_BUF1, HIBYTE FWDATA, LOBYTE FWDATA,
     HIBYTE PROG_BLOCK_SIZE, LOBYTE PROG_BLOCK_SIZE, 18, 0x42]"

text \<open>The documented layout of one descriptor, read back from its eight bytes: the
  16-bit fields are decoded big-endian (first byte is the high byte).\<close>

record dma_channel =
  dma_src :: nat
  dma_dest :: nat
  dma_len :: nat
  dma_trigger :: nat
  dma_mode :: nat

definition be16 :: "byte \<Rightarrow> byte \<Rightarrow> nat" where
  "be16 hi lo = 256 * unat hi + unat lo"

definition decode_descriptor :: "byte list \<Rightarrow> dma_channel" where
  "decode_descriptor d =
     \<lparr>dma_src = be16 (d ! 0) (d ! 1), dma_dest = be16 (d ! 2) (d ! 3),
      dma_len = be16 (d ! 4) (d ! 5), dma_trigger = unat (d ! 6), dma_mode = unat (d ! 7)\<rparr>"

definition descriptor_at :: "nat \<Rightarrow> byte list" where
  "descriptor_at k = take 8 (drop (8 * k) dma_desc)"

section \<open>The command table and its lookup\<close>

record cc2530_cmd =
  cmd_name :: string
  cmd_id :: byte
  cmd_in :: byte
  cmd_out :: byte

text \<open>The initialiser \<^verbatim>\<open>.in = -1\<close> of a \<^verbatim>\<open>uint8_t\<close> field stores 255.\<close>

definition cc2530_commands :: "cc2530_cmd list" where
  "cc2530_commands =
    [\<lparr>cmd_name = ''erase'', cmd_id = CMD_ERASE, cmd_in = 0, cmd_out = 1\<rparr>,
     \<lparr>cmd_name = ''write_config'', cmd_id = CMD_WR_CFG, cmd_in = 1, cmd_out = 1\<rparr>,
     \<lparr>cmd_name = ''read_config'', cmd_id = CMD_RD_CFG, cmd_in = 0, cmd_out = 1\<rparr>,
     \<lparr>cmd_name = ''get_pc'', cmd_id = CMD_GET_PC, cmd_in = 0, cmd_out = 2\<rparr>,
     \<lparr>cmd_name = ''read_status'', cmd_id = CMD_RD_ST, cmd_in = 0, cmd_out = 1\<rparr>,
     \<lparr>cmd_name = ''halt'', cmd_id = CMD_HALT, cmd_in = 0, cmd_out = 1\<rparr>,
     \<lparr>cmd_name = ''resume'', cmd_id = CMD_RESUME, cmd_in = 0, cmd_out = 1\<rparr>,
     \<lparr>cmd_name = ''debug_inst'', cmd_id = CMD_DBG_INST, cmd_in = 255, cmd_out = 1\<rparr>,
     \<lparr>cmd_name = ''step_inst'', cmd_id = CMD_STEP_INST, cmd_in = 0, cmd_out = 1\<rparr>,
     \<lparr>cmd_name = ''get_bm'', cmd_id = CMD_GET_BM, cmd_in = 0, cmd_out = 1\<rparr>,
     \<lparr>cmd_name = ''get_chip_id'', cmd_id = CMD_GET_CHIP, cmd_in = 0, cmd_out = 2\<rparr>,
     \<lparr>cmd_name = ''burst_write'', cmd_id = CMD_BURST_WR, cmd_in = 255, cmd_out = 1\<rparr>]"

text \<open>C strings are character buffers read up to the first NUL; the end of the list
  stands for the terminator as well.  \<open>strlen\<close> counts the characters before it and
  \<open>strncmp\<close> compares at most \<open>n\<close> characters, stopping at a terminator.\<close>

definition NUL :: char where "NUL = CHR 0x00"

fun strlen :: "string \<Rightarrow> nat" where
  "strlen [] = 0"
| "strlen (c # cs) = (if c = NUL then 0 else Suc (strlen cs))"

fun strncmp :: "string \<Rightarrow> string \<Rightarrow> nat \<Rightarrow> int" where
  "strncmp a b 0 = 0"
| "strncmp [] [] (Suc n) = 0"
| "strncmp [] (y # ys) (Suc n) = - int (of_char y)"
| "strncmp (x # xs) [] (Suc n) = int (of_char x)"
| "strncmp (x # xs) (y # ys) (Suc n) =
     (if x \<noteq> y then int (of_char x) - int (of_char y)
      else if x = NUL then 0
      else strncmp xs ys n)"

text \<open>\<open>find_cmd_by_name\<close> returns a pointer into the table; the model returns the
  index of the entry, \<open>None\<close> for \<open>NULL\<close>.  The loop runs over the indices from \<open>i\<close>.\<close>

fun find_cmd_from :: "nat \<Rightarrow> cc2530_cmd list \<Rightarrow> string \<Rightarrow> nat option" where
  "find_cmd_from i [] nm = None"
| "find_cmd_from i (c # cs) nm =
     (let len = strlen nm in
      if strncmp (cmd_name c) nm len = 0 then Some i
      else find_cmd_from (Suc i) cs nm)"

definition find_cmd_by_name :: "cc2530_cmd list \<Rightarrow> string \<Rightarrow> nat option" where
  "find_cmd_by_name tbl nm = find_cmd_from 0 tbl nm"

text \<open>The content of a C string: the characters before its terminator.\<close>

definition c_str :: "string \<Rightarrow> string" where
  "c_str s = takeWhile (\<lambda>c. c \<noteq> NUL) s"

text \<open>The specification's reading of the lookup: the first entry, in table order,
  whose name starts with the query.\<close>

fun first_prefix_match :: "nat \<Rightarrow> cc2530_cmd list \<Rightarrow> string \<Rightarrow> nat option" where
  "first_prefix_match i [] q = None"
| "first_prefix_match i (c # cs) q =
     (if prefix q (c_str (cmd_name c)) then Some i else first_prefix_match (Suc i) cs q)"

section \<open>The GPIO backend and the machine state\<close>

text \<open>The three pins of \<^verbatim>\<open>gpio.h\<close>.  \<^verbatim>\<open>RST_GPIO_POL\<close> is the operator \<^verbatim>\<open>!\<close>, so
  \<^verbatim>\<open>RST_GPIO_POL 0\<close> is the level 1 and \<^verbatim>\<open>RST_GPIO_POL 1\<close> the level 0.\<close>

definition RST_GPIO :: nat where "RST_GPIO = 0"
definition CCLK_GPIO :: nat where "CCLK_GPIO = 1"
definition DATA_GPIO :: nat where "DATA_GPIO = 2"

datatype gpio_direction = GPIO_DIRECTION_IN | GPIO_DIRECTION_OUT | GPIO_DIRECTION_HIGH

text \<open>The state the program works on.  The first block is the GPIO backend seen from
  the program: the level last driven on each pin, the direction of each pin, the levels
  the target presents at the coming reads of the data pin (\<open>data_in s 0\<close> at the next
  one) with the number of reads made so far, and whether the \<open>k\<close>-th export, unexport
  or direction request fails (\<^verbatim>\<open>write_file\<close> returning \<open>-1\<close>) with the number of requests
  made so far.  The second
  block holds the globals of \<^verbatim>\<open>cc2530prog.c\<close>.  \<open>stray\<close> is the memory lying behind the
  firmware buffer, \<open>fetched\<close> logs the indices read through the image cursor, and
  \<open>junk\<close> is the content of an uninitialised \<^verbatim>\<open>unsigned char\<close> local.  The
  \<^verbatim>\<open>verbose\<close> and \<^verbatim>\<open>progress\<close> flags only select what is printed and are left out, as
  is everything printed.  Reads and writes of pin values are taken to succeed: the
  program never looks at their return values.\<close>

record machine =
  pins :: "nat \<Rightarrow> bool"
  dirs :: "nat \<Rightarrow> gpio_direction"
  data_in :: "nat \<Rightarrow> bool"
  nsamples :: nat
  ctl_fail :: "nat \<Rightarrow> bool"
  nctl :: nat
  cmds :: "cc2530_cmd list"
  flash_ptr :: "16 word"
  fwdata :: "byte list"
  stray :: "nat \<Rightarrow> byte"
  fetched :: "nat list"
  junk :: byte
  debug_enabled :: bool

definition gpio_export :: "nat \<Rightarrow> machine \<Rightarrow> int \<times> machine" where
  "gpio_export n s =
     (if ctl_fail s (nctl s) then - 1 else 0, s\<lparr>nctl := Suc (nctl s)\<rparr>)"

definition gpio_unexport :: "nat \<Rightarrow> machine \<Rightarrow> int \<times> machine" where
  "gpio_unexport n s =
     (if ctl_fail s (nctl s) then - 1 else 0, s\<lparr>nctl := Suc (nctl s)\<rparr>)"

definition gpio_set_direction :: "nat \<Rightarrow> gpio_direction \<Rightarrow> machine \<Rightarrow> int \<times> machine" where
  "gpio_set_direction n d s =
     (if ctl_fail s (nctl s) then (- 1, s\<lparr>nctl := Suc (nctl s)\<rparr>)
      else (0, s\<lparr>nctl := Suc (nctl s), dirs := (dirs s)(n := d)\<rparr>))"

text \<open>Only the data pin is ever read.  A read takes the first level of \<open>data_in\<close>.\<close>

definition gpio_get_value :: "nat \<Rightarrow> machine \<Rightarrow> bool \<times> machine" where
  "gpio_get_value n s =
     (data_in s 0, s\<lparr>data_in := (\<lambda>k. data_in s (Suc k)), nsamples := Suc (nsamples s)\<rparr>)"

definition gpio_set_value :: "nat \<Rightarrow> bool \<Rightarrow> machine \<Rightarrow> machine" where
  "gpio_set_value n v s = s\<lparr>pins := (pins s)(n := v)\<rparr>"

section \<open>The firmware image cursor\<close>

definition init_flash_ptr :: "machine \<Rightarrow> machine" where
  "init_flash_ptr s = s\<lparr>flash_ptr := 0\<rparr>"

text \<open>What a read of \<^verbatim>\<open>fwdata[i]\<close> yields: the image byte, or whatever lies behind the
  buffer when \<open>i\<close> is past its end (the source has no bound check).\<close>

definition fw_byte :: "machine \<Rightarrow> nat \<Rightarrow> byte" where
  "fw_byte s i = (if i < length (fwdata s) then fwdata s ! i else stray s i)"

definition get_next_flash_byte :: "machine \<Rightarrow> byte \<times> machine" where
  "get_next_flash_byte s =
     (fw_byte s (unat (flash_ptr s)),
      s\<lparr>flash_ptr := flash_ptr s + 1, fetched := fetched s @ [unat (flash_ptr s)]\<rparr>)"

text \<open>\<open>n\<close> successive calls of \<open>get_next_flash_byte\<close>, with the bytes they return.\<close>

fun fetch_bytes :: "nat \<Rightarrow> machine \<Rightarrow> byte list \<times> machine" where
  "fetch_bytes 0 s = ([], s)"
| "fetch_bytes (Suc n) s =
     (case get_next_flash_byte s of (b, s1) \<Rightarrow>
        case fetch_bytes n s1 of (bs, s2) \<Rightarrow> (b # bs, s2))"

section \<open>Debug mode and the bit transport\<close>

fun enter_debug_pulses :: "nat \<Rightarrow> machine \<Rightarrow> machine" where
  "enter_debug_pulses 0 s = s"
| "enter_debug_pulses (Suc i) s =
     enter_debug_pulses i (gpio_set_value CCLK_GPIO True (gpio_set_value CCLK_GPIO False s))"

definition cc2530_enter_debug :: "machine \<Rightarrow> machine" where
  "cc2530_enter_debug s =
     (let s1 = gpio_set_value RST_GPIO (\<not> False) s;
          s2 = enter_debug_pulses 2 s1;
          s3 = gpio_set_value CCLK_GPIO False s2;
          s4 = gpio_set_value RST_GPIO (\<not> True) s3
      in s4\<lparr>debug_enabled := True\<rparr>)"

definition cc2530_leave_debug :: "machine \<Rightarrow> machine" where
  "cc2530_leave_debug s =
     gpio_set_value RST_GPIO (\<not> True) (gpio_set_value RST_GPIO (\<not> False) s)"

text \<open>\<open>send_bits (Suc i)\<close> is the loop of \<open>send_byte\<close> standing at bit \<open>i\<close>, counting
  down from bit 7.\<close>

fun send_bits :: "nat \<Rightarrow> byte \<Rightarrow> machine \<Rightarrow> machine" where
  "send_bits 0 b s = s"
| "send_bits (Suc i) b s =
     send_bits i b
       (gpio_set_value CCLK_GPIO False
         (gpio_set_value CCLK_GPIO True
           (gpio_set_value DATA_GPIO (bit b i) s)))"

definition send_byte :: "byte \<Rightarrow> machine \<Rightarrow> machine" where
  "send_byte b s = send_bits 8 b s"

fun read_bits :: "nat \<Rightarrow> byte \<Rightarrow> machine \<Rightarrow> byte \<times> machine" where
  "read_bits 0 b s = (b, s)"
| "read_bits (Suc i) b s =
     (case gpio_get_value DATA_GPIO (gpio_set_value CCLK_GPIO True s) of (val, s1) \<Rightarrow>
        read_bits i (if val then b OR push_bit i 1 else b)
          (gpio_set_value CCLK_GPIO False s1))"

definition read_byte :: "machine \<Rightarrow> byte \<times> machine" where
  "read_byte s = read_bits 8 0 s"

section \<open>The command protocol\<close>

fun clock_pulses :: "nat \<Rightarrow> machine \<Rightarrow> machine" where
  "clock_pulses 0 s = s"
| "clock_pulses (Suc i) s =
     clock_pulses i (gpio_set_value CCLK_GPIO False (gpio_set_value CCLK_GPIO True s))"

text \<open>The readiness poll \<^verbatim>\<open>while (val && timeout--)\<close> of \<open>cc2530_do_cmd\<close> and
  \<open>cc2530_burst_write\<close>, on the \<^verbatim>\<open>unsigned int\<close> counter: the decrement happens
  whenever \<open>val\<close> is set, also when the counter is already 0, where it wraps.  The
  result is the final \<open>val\<close>, the final counter and the state.\<close>

function wait_ready :: "bool \<Rightarrow> 32 word \<Rightarrow> machine \<Rightarrow> bool \<times> 32 word \<times> machine" where
  "wait_ready val timeout s =
     (if val then
        (if timeout \<noteq> 0 then
           (case gpio_get_value DATA_GPIO (clock_pulses 8 s) of (val', s1) \<Rightarrow>
              wait_ready val' (timeout - 1) s1)
         else (val, timeout - 1, s))
      else (val, timeout, s))"
  by pat_completeness auto
termination
  by (relation "measure (\<lambda>(val, timeout, s). unat timeout)")
     (auto simp: unat_minus_one word_neq_0_conv unat_gt_0)

fun send_bytes :: "byte list \<Rightarrow> machine \<Rightarrow> machine" where
  "send_bytes [] s = s"
| "send_bytes (b # bs) s = send_bytes bs (send_byte b s)"

fun read_bytes :: "nat \<Rightarrow> machine \<Rightarrow> byte list \<times> machine" where
  "read_bytes 0 s = ([], s)"
| "read_bytes (Suc n) s =
     (case read_byte s of (b, s1) \<Rightarrow>
        case read_bytes n s1 of (bs, s2) \<Rightarrow> (b # bs, s2))"

text \<open>\<open>cc2530_do_cmd\<close>.  The command is the index of a table entry (\<open>None\<close> for a
  \<^verbatim>\<open>NULL\<close> pointer), \<open>params\<close> the bytes the parameter pointer gives access to (\<open>[]\<close>
  for \<^verbatim>\<open>NULL\<close>).  The result \<open>None\<close> is a crash of the process: the parameter loop
  reading past \<open>params\<close>.  Otherwise the result is the return value, the bytes copied
  to \<^verbatim>\<open>outbuf\<close> (\<open>None\<close> when the copy is not reached) and the state.  \<^verbatim>\<open>malloc\<close> is
  taken to succeed.\<close>

definition cc2530_do_cmd ::
  "nat option \<Rightarrow> byte list \<Rightarrow> machine \<Rightarrow> (int \<times> byte list option \<times> machine) option" where
  "cc2530_do_cmd cmd params s =
     (case cmd of
        None \<Rightarrow> Some (- 1, None, s)
      | Some c \<Rightarrow>
          if length (cmds s) \<le> c then None
          else
            let e = cmds s ! c in
            case gpio_set_direction DATA_GPIO GPIO_DIRECTION_OUT s of (ret, s1) \<Rightarrow>
              if ret \<noteq> 0 then Some (ret, None, s1)
              else
                let s2 = (if cmd_id e = CMD_DBG_INST then send_byte (cmd_id e OR cmd_in e) s1
                          else send_byte (cmd_id e) s1)
                in
                if length params < unat (cmd_in e) then None
                else
                  let s3 = send_bytes (take (unat (cmd_in e)) params) s2 in
                  case gpio_set_direction DATA_GPIO GPIO_DIRECTION_IN s3 of (ret, s4) \<Rightarrow>
                    if ret \<noteq> 0 then Some (ret, None, s4)
                    else
                      case gpio_get_value DATA_GPIO s4 of (val, s5) \<Rightarrow>
                        case wait_ready val DEFAULT_TIMEOUT s5 of (val', timeout, s6) \<Rightarrow>
                          if timeout = 0 then Some (ret, None, s6)
                          else
                            case read_bytes (unat (cmd_out e)) s6 of (answer, s7) \<Rightarrow>
                              Some (ret, Some answer, s7))"

fun burst_bytes :: "nat \<Rightarrow> machine \<Rightarrow> machine" where
  "burst_bytes 0 s = s"
| "burst_bytes (Suc n) s =
     (case get_next_flash_byte s of (b, s1) \<Rightarrow> burst_bytes n (send_byte b s1))"

definition cc2530_burst_write :: "machine \<Rightarrow> int \<times> machine" where
  "cc2530_burst_write s =
     (case gpio_set_direction DATA_GPIO GPIO_DIRECTION_OUT s of (ret, s1) \<Rightarrow>
        if ret \<noteq> 0 then (ret, s1)
        else
          let s2 = send_byte (CMD_BURST_WR OR HIBYTE PROG_BLOCK_SIZE) s1;
              s3 = send_byte (LOBYTE PROG_BLOCK_SIZE) s2;
              s4 = burst_bytes (unat PROG_BLOCK_SIZE) s3
          in
          case gpio_set_direction DATA_GPIO GPIO_DIRECTION_IN s4 of (ret, s5) \<Rightarrow>
            if ret \<noteq> 0 then (ret, s5)
            else
              case gpio_get_value DATA_GPIO s5 of (val, s6) \<Rightarrow>
                case wait_ready val DEFAULT_TIMEOUT s6 of (val', timeout, s7) \<Rightarrow>
                  if timeout = 0 then (- 1, s7)
                  else case read_byte s7 of (result, s8) \<Rightarrow> (0, s8))"

section \<open>The memory access layer\<close>

text \<open>The assignment \<^verbatim>\<open>cmd->in = n\<close> through the pointer returned by the lookup.\<close>

definition set_cmd_in :: "nat \<Rightarrow> byte \<Rightarrow> machine \<Rightarrow> machine" where
  "set_cmd_in c n s = s\<lparr>cmds := (cmds s)[c := (cmds s ! c)\<lparr>cmd_in := n\<rparr>]\<rparr>"

text \<open>The recurring pair \<^verbatim>\<open>cmd->in = n; ret = cc2530_do_cmd(cmd, instr, &result);\<close>.\<close>

definition debug_instr ::
  "nat \<Rightarrow> byte \<Rightarrow> byte list \<Rightarrow> machine \<Rightarrow> (int \<times> byte list option \<times> machine) option" where
  "debug_instr c n instr s = cc2530_do_cmd (Some c) instr (set_cmd_in c n s)"

text \<open>What a one-byte result variable holds after a call that was handed its address:
  the first byte copied, or its old content when nothing was copied.\<close>

definition stored :: "byte list option \<Rightarrow> byte \<Rightarrow> byte" where
  "stored answer old = (case answer of Some (b # bs) \<Rightarrow> b | _ \<Rightarrow> old)"

text \<open>The results below are \<open>None\<close> when the process crashes: a lookup returned
  \<^verbatim>\<open>NULL\<close> and the pointer is dereferenced, or \<open>cc2530_do_cmd\<close> crashed.\<close>

definition cc2530_write_xdata_memory ::
  "16 word \<Rightarrow> byte \<Rightarrow> machine \<Rightarrow> (int \<times> machine) option" where
  "cc2530_write_xdata_memory addr val s =
     (case find_cmd_by_name (cmds s) ''debug_inst'' of
        None \<Rightarrow> None
      | Some c \<Rightarrow>
          (case debug_instr c 3 [0x90, HIBYTE addr, LOBYTE addr] s of
             None \<Rightarrow> None
           | Some (ret, a1, s1) \<Rightarrow>
               if ret \<noteq> 0 then Some (ret, s1)
               else
                 (case debug_instr c 2 [0x74, val, LOBYTE addr] s1 of
                    None \<Rightarrow> None
                  | Some (ret, a2, s2) \<Rightarrow>
                      if ret \<noteq> 0 then Some (ret, s2)
                      else
                        (case debug_instr c 1 [0xF0, val, LOBYTE addr] s2 of
                           None \<Rightarrow> None
                         | Some (ret, a3, s3) \<Rightarrow>
                             if ret \<noteq> 0 then Some (ret, s3) else Some (0, s3)))))"

text \<open>\<open>cc2530_read_xdata_memory\<close> takes the content of the caller's result byte and
  returns its new content.  The first command writes its answer straight into it; the
  second writes into the uninitialised local \<^verbatim>\<open>res\<close>, which is then copied over.\<close>

definition cc2530_read_xdata_memory ::
  "16 word \<Rightarrow> byte \<Rightarrow> machine \<Rightarrow> (int \<times> byte \<times> machine) option" where
  "cc2530_read_xdata_memory addr result s =
     (case find_cmd_by_name (cmds s) ''debug_inst'' of
        None \<Rightarrow> None
      | Some c \<Rightarrow>
          (case debug_instr c 3 [0x90, HIBYTE addr, LOBYTE addr] s of
             None \<Rightarrow> None
           | Some (ret, a1, s1) \<Rightarrow>
               if ret \<noteq> 0 then Some (ret, stored a1 result, s1)
               else
                 (case debug_instr c 1 [0xE0, HIBYTE addr, LOBYTE addr] s1 of
                    None \<Rightarrow> None
                  | Some (ret, a2, s2) \<Rightarrow>
                      if ret \<noteq> 0 then Some (ret, stored a1 result, s2)
                      else Some (0, stored a2 (junk s2), s2))))"

fun write_block_loop ::
  "nat \<Rightarrow> byte \<Rightarrow> byte list \<Rightarrow> machine \<Rightarrow> (int \<times> machine) option" where
  "write_block_loop c lo [] s = Some (0, s)"
| "write_block_loop c lo (v # vs) s =
     (case debug_instr c 2 [0x74, v, lo] s of
        None \<Rightarrow> None
      | Some (ret, a1, s1) \<Rightarrow>
          if ret \<noteq> 0 then Some (ret, s1)
          else
            (case debug_instr c 1 [0xF0, v, lo] s1 of
               None \<Rightarrow> None
             | Some (ret, a2, s2) \<Rightarrow>
                 if ret \<noteq> 0 then Some (ret, s2)
                 else
                   (case debug_instr c 1 [0xA3, v, lo] s2 of
                      None \<Rightarrow> None
                    | Some (ret, a3, s3) \<Rightarrow>
                        if ret \<noteq> 0 then Some (ret, s3)
                        else write_block_loop c lo vs s3)))"

text \<open>The block write is called with \<^verbatim>\<open>num_bytes\<close> the size of \<open>values\<close>.\<close>

definition cc2530_write_xdata_memory_block ::
  "16 word \<Rightarrow> byte list \<Rightarrow> machine \<Rightarrow> (int \<times> machine) option" where
  "cc2530_write_xdata_memory_block addr vals s =
     (case find_cmd_by_name (cmds s) ''debug_inst'' of
        None \<Rightarrow> None
      | Some c \<Rightarrow>
          (case debug_instr c 3 [0x90, HIBYTE addr, LOBYTE addr] s of
             None \<Rightarrow> None
           | Some (ret, a1, s1) \<Rightarrow>
               if ret \<noteq> 0 then Some (ret, s1)
               else write_block_loop c (LOBYTE addr) vals s1))"

section \<open>Chip erase\<close>

text \<open>A loop either leaves the function with a return value (\<open>Inl\<close>) or falls through
  with its variables (\<open>Inr\<close>).  The loop of \<open>cc2530_chip_erase\<close> is
  \<^verbatim>\<open>do { ... } while ((result & CHIP_ERASE_BSY) && timeout--)\<close>.\<close>

function erase_poll ::
  "nat option \<Rightarrow> byte \<Rightarrow> 32 word \<Rightarrow> machine \<Rightarrow> ((int + 32 word) \<times> machine) option" where
  "erase_poll cmd result timeout s =
     (case cc2530_do_cmd cmd [] s of
        None \<Rightarrow> None
      | Some (ret, a, s1) \<Rightarrow>
          if ret \<noteq> 0 then (if cmd = None then None else Some (Inl ret, s1))
          else if stored a result AND CHIP_ERASE_BSY \<noteq> 0 then
            (if timeout \<noteq> 0 then erase_poll cmd (stored a result) (timeout - 1) s1
             else Some (Inr (timeout - 1), s1))
          else Some (Inr timeout, s1))"
  by pat_completeness auto
termination
  by (relation "measure (\<lambda>(cmd, result, timeout, s). unat timeout)")
     (auto simp: unat_minus_one word_neq_0_conv unat_gt_0)

definition cc2530_chip_erase :: "machine \<Rightarrow> (int \<times> machine) option" where
  "cc2530_chip_erase s =
     (let cmd = find_cmd_by_name (cmds s) ''erase'' in
      case cc2530_do_cmd cmd [] s of
        None \<Rightarrow> None
      | Some (ret, a, s1) \<Rightarrow>
          if ret \<noteq> 0 then (if cmd = None then None else Some (ret, s1))
          else
            (case erase_poll (find_cmd_by_name (cmds s1) ''read_status'')
                    (stored a (junk s1)) DEFAULT_TIMEOUT s1 of
               None \<Rightarrow> None
             | Some (Inl ret, s2) \<Rightarrow> Some (ret, s2)
             | Some (Inr timeout, s2) \<Rightarrow>
                 if timeout = 0 then Some (- 1, s2) else Some (0, s2)))"

section \<open>Flash verification\<close>

text \<open>The inner loop of \<open>cc2530_flash_verify\<close> over \<open>i < 32 * 1024\<close>; the function
  returns \<^verbatim>\<open>uint32_t\<close>, so a failing \<open>ret\<close> is converted.\<close>

function verify_bank ::
  "nat \<Rightarrow> nat \<Rightarrow> 32 word \<Rightarrow> 32 word \<Rightarrow> machine \<Rightarrow> ((32 word + 32 word) \<times> machine) option" where
  "verify_bank c i addr max_addr s =
     (if i < 32 * 1024 then
        (if addr = max_addr then Some (Inl addr, s)
         else
           (case debug_instr c 1 [0xE0, 0x80, 0x00] s of
              None \<Rightarrow> None
            | Some (ret, a1, s1) \<Rightarrow>
                if ret \<noteq> 0 then Some (Inl (word_of_int ret), s1)
                else
                  (case get_next_flash_byte s1 of (expected, s2) \<Rightarrow>
                     (case debug_instr c 1 [0xA3, 0x80, 0x00] s2 of
                        None \<Rightarrow> None
                      | Some (ret, a2, s3) \<Rightarrow>
                          if ret \<noteq> 0 then Some (Inl (word_of_int ret), s3)
                          else verify_bank c (Suc i) (addr + 1) max_addr s3))))
      else Some (Inr addr, s))"
  by pat_completeness auto
termination
  by (relation "measure (\<lambda>(c, i, addr, max_addr, s). 32 * 1024 - i)") auto

function verify_banks ::
  "nat \<Rightarrow> 32 word \<Rightarrow> 32 word \<Rightarrow> machine \<Rightarrow> (32 word \<times> machine) option" where
  "verify_banks bank addr max_addr s =
     (if bank < 8 then
        (case cc2530_write_xdata_memory X_MEMCTR (of_nat bank) s of
           None \<Rightarrow> None
         | Some (ret, s1) \<Rightarrow>
             if ret \<noteq> 0 then Some (word_of_int ret, s1)
             else
               (case find_cmd_by_name (cmds s1) ''debug_inst'' of
                  None \<Rightarrow> None
                | Some c \<Rightarrow>
                    (case debug_instr c 3 [0x90, 0x80, 0x00] s1 of
                       None \<Rightarrow> None
                     | Some (ret, a1, s2) \<Rightarrow>
                         if ret \<noteq> 0 then Some (word_of_int ret, s2)
                         else
                           (case verify_bank c 0 addr max_addr s2 of
                              None \<Rightarrow> None
                            | Some (Inl r, s3) \<Rightarrow> Some (r, s3)
                            | Some (Inr addr', s3) \<Rightarrow>
                                verify_banks (Suc bank) addr' max_addr s3))))
      else Some (addr, s))"
  by pat_completeness auto
termination
  by (relation "measure (\<lambda>(bank, addr, max_addr, s). 8 - bank)") auto

definition cc2530_flash_verify :: "32 word \<Rightarrow> machine \<Rightarrow> (32 word \<times> machine) option" where
  "cc2530_flash_verify max_addr s = verify_banks 0 0 max_addr s"

section \<open>Flash programming\<close>

text \<open>The loop \<^verbatim>\<open>do { ret = cc2530_read_xdata_memory(cmd, FCTL, &result); ...; wait = 1; }
  while ((result & FCTL_BUSY) && timeout--)\<close> of \<open>cc2530_program_flash\<close>.  It falls through
  with the counter, \<open>wait\<close> and \<open>result\<close>.  The loop after the last block is the same
  without the assignment to \<open>wait\<close>, which is not read there.\<close>

function fctl_poll ::
  "byte \<Rightarrow> byte \<Rightarrow> 32 word \<Rightarrow> machine \<Rightarrow>
     ((int + 32 word \<times> byte \<times> byte) \<times> machine) option" where
  "fctl_poll wait result timeout s =
     (case cc2530_read_xdata_memory FCTL result s of
        None \<Rightarrow> None
      | Some (ret, result', s1) \<Rightarrow>
          if ret \<noteq> 0 then Some (Inl ret, s1)
          else if result' AND FCTL_BUSY \<noteq> 0 then
            (if timeout \<noteq> 0 then fctl_poll 1 result' (timeout - 1) s1
             else Some (Inr (timeout - 1, 1, result'), s1))
          else Some (Inr (timeout, 1, result'), s1))"
  by pat_completeness auto
termination
  by (relation "measure (\<lambda>(wait, result, timeout, s). unat timeout)")
     (auto simp: unat_minus_one word_neq_0_conv unat_gt_0)

text \<open>The body of the loop over the blocks, for the block \<open>i\<close>.  It either leaves
  \<open>cc2530_program_flash\<close> with a return value, or ends with the new \<open>max_speed\<close>,
  \<open>result\<close> and \<open>timeout\<close>.  The function returns \<^verbatim>\<open>uint8_t\<close>: a failing \<open>ret\<close> and the
  \<open>-1\<close> of a timeout are converted.  The return value of \<open>cc2530_burst_write\<close> is not
  looked at.\<close>

definition program_block ::
  "16 word \<Rightarrow> byte \<Rightarrow> byte \<Rightarrow> 32 word \<Rightarrow> machine \<Rightarrow>
     ((byte + byte \<times> byte \<times> 32 word) \<times> machine) option" where
  "program_block i max_speed result timeout s =
     (let dbg_arm = (if i AND 0x0001 = 0 then CH_DBG_TO_BUF0 else CH_DBG_TO_BUF1);
          flash_arm = (if i AND 0x0001 = 0 then CH_BUF0_TO_FLASH else CH_BUF1_TO_FLASH)
      in
      case cc2530_write_xdata_memory X_DMAARM dbg_arm s of
        None \<Rightarrow> None
      | Some (ret, s1) \<Rightarrow>
          if ret \<noteq> 0 then Some (Inl (word_of_int ret), s1)
          else
            (case cc2530_burst_write s1 of (bret, s2) \<Rightarrow>
               (case fctl_poll 0 result timeout s2 of
                  None \<Rightarrow> None
                | Some (Inl ret, s3) \<Rightarrow> Some (Inl (word_of_int ret), s3)
                | Some (Inr (timeout', wait, result'), s3) \<Rightarrow>
                    if timeout' = 0 then Some (Inl (word_of_int (- 1)), s3)
                    else
                      (let max_speed' = (if 0 < i \<and> wait = 0 then 0 else max_speed) in
                       case cc2530_write_xdata_memory X_DMAARM flash_arm s3 of
                         None \<Rightarrow> None
                       | Some (ret, s4) \<Rightarrow>
                           if ret \<noteq> 0 then Some (Inl (word_of_int ret), s4)
                           else
                             (case cc2530_write_xdata_memory FCTL 0x06 s4 of
                                None \<Rightarrow> None
                              | Some (ret, s5) \<Rightarrow>
                                  if ret \<noteq> 0 then Some (Inl (word_of_int ret), s5)
                                  else Some (Inr (max_speed', result', timeout'), s5))))))"

text \<open>The loop over the blocks, \<^verbatim>\<open>for (i = 0; i < num_buffers; i++)\<close> on \<^verbatim>\<open>uint16_t\<close>.
  The counter \<open>timeout\<close> is set once before the loop and shared by all blocks.\<close>

function program_blocks ::
  "16 word \<Rightarrow> 16 word \<Rightarrow> byte \<Rightarrow> byte \<Rightarrow> 32 word \<Rightarrow> machine \<Rightarrow>
     ((byte + byte \<times> byte \<times> 32 word) \<times> machine) option" where
  "program_blocks i num_buffers max_speed result timeout s =
     (if i < num_buffers then
        (case program_block i max_speed result timeout s of
           None \<Rightarrow> None
         | Some (Inl r, s1) \<Rightarrow> Some (Inl r, s1)
         | Some (Inr (max_speed', result', timeout'), s1) \<Rightarrow>
             program_blocks (i + 1) num_buffers max_speed' result' timeout' s1)
      else Some (Inr (max_speed, result, timeout), s))"
  by pat_completeness auto
termination
proof (relation "measure (\<lambda>(i, num_buffers, max_speed, result, timeout, s).
                   unat num_buffers - unat i)", goal_cases)
  case 1
  show ?case by simp
next
  case (2 i num_buffers)
  have "unat num_buffers - unat (i + 1) < unat num_buffers - unat i"
    using \<open>i < num_buffers\<close>
    by unat_arith
  then show ?case by simp
qed

text \<open>The straight-line start of \<open>cc2530_program_flash\<close>: the descriptor table, the
  pointer to it and the flash address.\<close>

definition program_setup :: "machine \<Rightarrow> (int \<times> machine) option" where
  "program_setup s =
     (case cc2530_write_xdata_memory_block ADDR_DMA_DESC dma_desc s of
        None \<Rightarrow> None
      | Some (ret, s1) \<Rightarrow>
          if ret \<noteq> 0 then Some (ret, s1)
          else
            (case cc2530_write_xdata_memory X_DMA1CFGH (HIBYTE ADDR_DMA_DESC) s1 of
               None \<Rightarrow> None
             | Some (ret, s2) \<Rightarrow>
                 if ret \<noteq> 0 then Some (ret, s2)
                 else
                   (case cc2530_write_xdata_memory X_DMA1CFGL (LOBYTE ADDR_DMA_DESC) s2 of
                      None \<Rightarrow> None
                    | Some (ret, s3) \<Rightarrow>
                        if ret \<noteq> 0 then Some (ret, s3)
                        else
                          (case cc2530_write_xdata_memory FADDRH 0 s3 of
                             None \<Rightarrow> None
                           | Some (ret, s4) \<Rightarrow>
                               if ret \<noteq> 0 then Some (ret, s4)
                               else cc2530_write_xdata_memory FADDRL 0 s4))))"

definition cc2530_program_flash :: "16 word \<Rightarrow> machine \<Rightarrow> (byte \<times> machine) option" where
  "cc2530_program_flash num_buffers s =
     (case program_setup s of
        None \<Rightarrow> None
      | Some (ret, s1) \<Rightarrow>
          if ret \<noteq> 0 then Some (word_of_int ret, s1)
          else
            (case program_blocks 0 num_buffers 1 (junk s1) DEFAULT_TIMEOUT s1 of
               None \<Rightarrow> None
             | Some (Inl r, s2) \<Rightarrow> Some (r, s2)
             | Some (Inr (max_speed, result, timeout), s2) \<Rightarrow>
                 (case fctl_poll 1 result DEFAULT_TIMEOUT s2 of
                    None \<Rightarrow> None
                  | Some (Inl ret, s3) \<Rightarrow> Some (word_of_int ret, s3)
                  | Some (Inr (timeout', wait, result'), s3) \<Rightarrow>
                      if timeout' = 0 then Some (word_of_int (- 1), s3)
                      else Some (max_speed, s3))))"

section \<open>Chip identification\<close>

text \<open>The \<^verbatim>\<open>switch\<close> on the flash-size field and the following \<^verbatim>\<open>*flash_size *= 1024\<close>,
  on the \<^verbatim>\<open>int\<close> the caller owns; the \<^verbatim>\<open>switch\<close> has no default case.  The
  multiplication is taken in 32-bit two's complement.\<close>

definition flash_size_switch :: "byte \<Rightarrow> int \<Rightarrow> int" where
  "flash_size_switch chipinfo flash_size =
     (let code = drop_bit 4 (chipinfo AND 0x70) in
      if code = 1 then 32
      else if code = 2 then 64
      else if code = 3 then 128
      else if code = 4 then 256
      else flash_size)"

definition int32 :: "int \<Rightarrow> int" where
  "int32 x = sint (word_of_int x :: 32 word)"

definition EINVAL :: int where "EINVAL = 22"

text \<open>The loop reading the seven bytes of the extended address into \<open>result[0]\<close>.\<close>

function ext_addr_loop ::
  "nat \<Rightarrow> byte \<Rightarrow> machine \<Rightarrow> (int \<times> byte \<times> machine) option" where
  "ext_addr_loop i result s =
     (if i < 7 then
        (case cc2530_read_xdata_memory (X_EXT_ADDR_BASE + of_nat i) result s of
           None \<Rightarrow> None
         | Some (ret, result', s1) \<Rightarrow>
             if ret \<noteq> 0 then Some (ret, result', s1)
             else ext_addr_loop (Suc i) result' s1)
      else Some (0, result, s))"
  by pat_completeness auto
termination
  by (relation "measure (\<lambda>(i, result, s). 7 - i)") auto

text \<open>\<open>cc2530_chip_identify\<close> takes the content of the caller's \<open>flash_size\<close> and
  returns the return value with its new content.\<close>

definition cc2530_chip_identify :: "int \<Rightarrow> machine \<Rightarrow> (int \<times> int \<times> machine) option" where
  "cc2530_chip_identify flash_size s =
     (case gpio_set_direction DATA_GPIO GPIO_DIRECTION_OUT s of (ret, s1) \<Rightarrow>
        if ret \<noteq> 0 then Some (ret, flash_size, s1)
        else
          (let cmd = find_cmd_by_name (cmds s1) ''get_chip_id'' in
           case cc2530_do_cmd cmd [] s1 of
             None \<Rightarrow> None
           | Some (ret, a, s2) \<Rightarrow>
               if ret \<noteq> 0 then (if cmd = None then None else Some (ret, flash_size, s2))
               else if stored a 0 \<noteq> CC2530_ID then Some (- EINVAL, flash_size, s2)
               else
                 (case ext_addr_loop 0 (stored a 0) s2 of
                    None \<Rightarrow> None
                  | Some (ret, result, s3) \<Rightarrow>
                      if ret \<noteq> 0 then Some (ret, flash_size, s3)
                      else
                        (case cc2530_read_xdata_memory X_CHIPINFO0 result s3 of
                           None \<Rightarrow> None
                         | Some (ret, result', s4) \<Rightarrow>
                             if ret \<noteq> 0 then Some (ret, flash_size, s4)
                             else
                               (let flash_size' =
                                      int32 (flash_size_switch result' flash_size * 1024)
                                in
                                case cc2530_read_xdata_memory X_CHIPINFO1 result' s4 of
                                  None \<Rightarrow> None
                                | Some (ret, result'', s5) \<Rightarrow>
                                    Some (ret, flash_size', s5))))))"

section \<open>The programming run\<close>

definition DIV_ROUND_UP :: "nat \<Rightarrow> nat \<Rightarrow> nat" where
  "DIV_ROUND_UP n d = (n + d - 1) div d"

text \<open>The loop \<^verbatim>\<open>while (retry_cnt--)\<close> of \<open>cc2530_do_program\<close> that enables DMA.  It
  falls through with \<open>result\<close>, also when the counter has run out; the counter is not
  read after the loop.\<close>

function enable_dma_loop ::
  "32 word \<Rightarrow> byte \<Rightarrow> machine \<Rightarrow> ((int + byte) \<times> machine) option" where
  "enable_dma_loop retry_cnt result s =
     (if retry_cnt \<noteq> 0 then
        (case cc2530_do_cmd (find_cmd_by_name (cmds s) ''write_config'') [0x22] s of
           None \<Rightarrow> None
         | Some (ret, a, s1) \<Rightarrow>
             if ret \<noteq> 0 then Some (Inl ret, s1)
             else if stored a result \<noteq> 0x22 then
               enable_dma_loop (retry_cnt - 1) (stored a result) (cc2530_enter_debug s1)
             else Some (Inr (stored a result), s1))
      else Some (Inr result, s))"
  by pat_completeness auto
termination
  by (relation "measure (\<lambda>(retry_cnt, result, s). unat retry_cnt)")
     (auto simp: unat_minus_one word_neq_0_conv unat_gt_0)

text \<open>The loop \<^verbatim>\<open>do { ... } while ((result != 0x80) && timeout--)\<close> on the clock status.\<close>

function clkconsta_poll ::
  "byte \<Rightarrow> 32 word \<Rightarrow> machine \<Rightarrow> ((int + 32 word) \<times> machine) option" where
  "clkconsta_poll result timeout s =
     (case cc2530_read_xdata_memory X_CLKCONSTA result s of
        None \<Rightarrow> None
      | Some (ret, result', s1) \<Rightarrow>
          if ret \<noteq> 0 then Some (Inl ret, s1)
          else if result' \<noteq> 0x80 then
            (if timeout \<noteq> 0 then clkconsta_poll result' (timeout - 1) s1
             else Some (Inr (timeout - 1), s1))
          else Some (Inr timeout, s1))"
  by pat_completeness auto
termination
  by (relation "measure (\<lambda>(result, timeout, s). unat timeout)")
     (auto simp: unat_minus_one word_neq_0_conv unat_gt_0)

text \<open>\<open>cc2530_do_program\<close>, with the size of the firmware file and the read-back
  flag.  The value of \<open>cc2530_program_flash\<close> only selects a message; whatever the
  verification finds, the function leaves debug mode and returns 0.\<close>

definition cc2530_do_program :: "nat \<Rightarrow> bool \<Rightarrow> machine \<Rightarrow> (int \<times> machine) option" where
  "cc2530_do_program fwsize do_readback s =
     (case enable_dma_loop 3 (junk s) s of
        None \<Rightarrow> None
      | Some (Inl ret, s1) \<Rightarrow> Some (ret, s1)
      | Some (Inr result, s1) \<Rightarrow>
          (case cc2530_write_xdata_memory X_CLKCONCMD 0x80 s1 of
             None \<Rightarrow> None
           | Some (ret, s2) \<Rightarrow>
               if ret \<noteq> 0 then Some (ret, s2)
               else
                 (case clkconsta_poll result DEFAULT_TIMEOUT s2 of
                    None \<Rightarrow> None
                  | Some (Inl ret, s3) \<Rightarrow> Some (ret, s3)
                  | Some (Inr timeout, s3) \<Rightarrow>
                      if timeout = 0 then Some (- 1, s3)
                      else
                        (case cc2530_chip_erase s3 of
                           None \<Rightarrow> None
                         | Some (ret, s4) \<Rightarrow>
                             if ret \<noteq> 0 then Some (ret, s4)
                             else
                               (let s5 = init_flash_ptr s4;
                                    blocks = (of_nat (DIV_ROUND_UP fwsize (unat PROG_BLOCK_SIZE))
                                                :: 16 word)
                                in
                                case cc2530_program_flash blocks s5 of
                                  None \<Rightarrow> None
                                | Some (r, s6) \<Rightarrow>
                                    if \<not> do_readback then Some (0, cc2530_leave_debug s6)
                                    else
                                      (case cc2530_flash_verify
                                              (of_nat (unat blocks * unat PROG_BLOCK_SIZE))
                                              (init_flash_ptr s6) of
                                         None \<Rightarrow> None
                                       | Some (num_bytes_ok, s7) \<Rightarrow>
                                           Some (0, cc2530_leave_debug s7)))))))"

text \<open>\<open>cc2530_oneshot_command\<close> passes no parameters.\<close>

definition cc2530_oneshot_command :: "string \<Rightarrow> machine \<Rightarrow> (int \<times> machine) option" where
  "cc2530_oneshot_command command s =
     (case find_cmd_by_name (cmds s) command of
        None \<Rightarrow> Some (- 1, s)
      | Some c \<Rightarrow>
          (case cc2530_do_cmd (Some c) [] s of
             None \<Rightarrow> None
           | Some (ret, a, s1) \<Rightarrow> if ret \<noteq> 0 then Some (- 1, s1) else Some (0, s1)))"

section \<open>The main function\<close>

definition gpios :: "nat list" where
  "gpios = [RST_GPIO, CCLK_GPIO, DATA_GPIO]"

fun gpio_init_loop :: "nat list \<Rightarrow> machine \<Rightarrow> int \<times> machine" where
  "gpio_init_loop [] s = (0, s)"
| "gpio_init_loop (g # gs) s =
     (case gpio_export g s of (ret, s1) \<Rightarrow>
        if ret \<noteq> 0 then (ret, s1)
        else
          (case gpio_set_direction g GPIO_DIRECTION_OUT s1 of (ret, s2) \<Rightarrow>
             if ret \<noteq> 0 then (ret, s2) else gpio_init_loop gs s2))"

definition cc2530_gpio_init :: "machine \<Rightarrow> int \<times> machine" where
  "cc2530_gpio_init s = gpio_init_loop gpios s"

fun gpio_deinit_loop :: "nat list \<Rightarrow> machine \<Rightarrow> int \<times> machine" where
  "gpio_deinit_loop [] s = (0, s)"
| "gpio_deinit_loop (g # gs) s =
     (case gpio_set_direction g GPIO_DIRECTION_IN s of (ret, s1) \<Rightarrow>
        if ret \<noteq> 0 then (ret, s1)
        else
          (case gpio_unexport g s1 of (ret, s2) \<Rightarrow>
             if ret \<noteq> 0 then (ret, s2) else gpio_deinit_loop gs s2))"

definition cc2530_gpio_deinit :: "machine \<Rightarrow> int \<times> machine" where
  "cc2530_gpio_deinit s = gpio_deinit_loop gpios s"

text \<open>The loop \<^verbatim>\<open>while (retry_cnt--)\<close> of \<open>main\<close> around the identification.  It falls
  through with the counter, \<open>ret\<close> and \<open>flash_size\<close>.\<close>

function identify_retry ::
  "32 word \<Rightarrow> int \<Rightarrow> int \<Rightarrow> machine \<Rightarrow> (32 word \<times> int \<times> int \<times> machine) option" where
  "identify_retry retry_cnt ret flash_size s =
     (if retry_cnt \<noteq> 0 then
        (case cc2530_chip_identify flash_size s of
           None \<Rightarrow> None
         | Some (ret', flash_size', s1) \<Rightarrow>
             if ret' \<noteq> 0 then identify_retry (retry_cnt - 1) ret' flash_size' s1
             else Some (retry_cnt - 1, ret', flash_size', s1))
      else Some (retry_cnt - 1, ret, flash_size, s))"
  by pat_completeness auto
termination
  by (relation "measure (\<lambda>(retry_cnt, ret, flash_size, s). unat retry_cnt)")
     (auto simp: unat_minus_one word_neq_0_conv unat_gt_0)

text \<open>What the command line and the file system give to \<open>main\<close>: the options, and
  for the firmware file whether \<^verbatim>\<open>stat\<close> succeeds (\<open>None\<close> if not), whether it is a
  regular file, and its bytes.  Opening, allocating and reading the file are taken to
  succeed, and at least one argument is given.\<close>

record invocation =
  do_identify :: bool
  command :: "string option"
  do_list :: bool
  do_readback :: bool
  firmware :: "(bool \<times> byte list) option"

text \<open>The label \<^verbatim>\<open>out:\<close>.\<close>

definition main_out :: "int \<Rightarrow> machine \<Rightarrow> (int \<times> machine) option" where
  "main_out ret s =
     (case cc2530_gpio_deinit (cc2530_leave_debug s) of (r, s1) \<Rightarrow> Some (ret, s1))"

definition main :: "invocation \<Rightarrow> machine \<Rightarrow> (int \<times> machine) option" where
  "main args s =
     (case cc2530_gpio_init s of (r, s1) \<Rightarrow>
        if r \<noteq> 0 then Some (- 1, s1)
        else
          (let s2 = (if \<not> debug_enabled s1 then cc2530_enter_debug s1 else s1) in
           if do_identify args then
             (case cc2530_chip_identify 0 s2 of
                None \<Rightarrow> None
              | Some (ret, flash_size, s3) \<Rightarrow> main_out ret s3)
           else
             (case command args of
                Some c \<Rightarrow>
                  (case cc2530_oneshot_command c s2 of
                     None \<Rightarrow> None
                   | Some (r, s3) \<Rightarrow> main_out 0 s3)
              | None \<Rightarrow>
                  if do_list args then main_out 0 s2
                  else
                    (case firmware args of
                       None \<Rightarrow> main_out 0 s2
                     | Some (regular, content) \<Rightarrow>
                         if \<not> regular then main_out 0 s2
                         else
                           (let fwsize = length content in
                            case identify_retry 3 0 0 s2 of
                              None \<Rightarrow> None
                            | Some (retry_cnt, ret, flash_size, s3) \<Rightarrow>
                                if retry_cnt = 0 then main_out ret s3
                                else if flash_size < int fwsize then main_out ret s3
                                else
                                  (case cc2530_do_program fwsize (do_readback args)
                                          (s3\<lparr>fwdata := content\<rparr>) of
                                     None \<Rightarrow> None
                                   | Some (r, s4) \<Rightarrow>
                                       main_out (if r \<noteq> 0 then - 1 else ret) s4))))))"

text \<open>The state at program start: the globals as initialised, around the given
  behaviour of the target's data line, of the GPIO requests and of memory.\<close>

definition boot ::
  "(nat \<Rightarrow> bool) \<Rightarrow> (nat \<Rightarrow> bool) \<Rightarrow> (nat \<Rightarrow> byte) \<Rightarrow> byte \<Rightarrow> machine" where
  "boot line fails mem j =
     \<lparr>pins = (\<lambda>n. False), dirs = (\<lambda>n. GPIO_DIRECTION_IN), data_in = line, nsamples = 0,
      ctl_fail = fails, nctl = 0, cmds = cc2530_commands, flash_ptr = 0, fwdata = [],
      stray = mem, fetched = [], junk = j, debug_enabled = False\<rparr>"

text \<open>The exit status the parent process sees: the low eight bits of the value
  returned by \<open>main\<close>.\<close>

definition exit_status :: "int \<Rightarrow> int" where
  "exit_status ret = ret mod 256"

section \<open>Notions used to state the results\<close>

text \<open>The byte that \<open>read_byte\<close> assembles from the eight levels of a line starting at
  position \<open>p\<close>, in the shape of the loop of \<open>read_byte\<close>.\<close>

fun sample_bits :: "nat \<Rightarrow> byte \<Rightarrow> (nat \<Rightarrow> bool) \<Rightarrow> nat \<Rightarrow> byte" where
  "sample_bits 0 acc line p = acc"
| "sample_bits (Suc i) acc line p =
     sample_bits i (if line p then acc OR push_bit i 1 else acc) line (Suc p)"

text \<open>A target that answers every command at once: nine levels per reply, a low level
  (ready) and then the bits of the reply byte from bit 7 down.\<close>

definition reply_bit :: "byte \<Rightarrow> nat \<Rightarrow> bool" where
  "reply_bit b j = (if j = 0 then False else bit b (8 - j))"

definition reply_line :: "(nat \<Rightarrow> byte) \<Rightarrow> nat \<Rightarrow> bool" where
  "reply_line rs k = reply_bit (rs (k div 9)) (k mod 9)"


text \<open>The part of a table entry that stays as initialised: the name, the opcode, the
  number of output bytes, and the number of input bytes unless the entry is the one the
  lookup of \<open>debug_inst\<close> can return.\<close>

definition frozen :: "cc2530_cmd \<Rightarrow> string \<times> byte \<times> byte \<times> byte option" where
  "frozen c =
     (cmd_name c, cmd_id c, cmd_out c,
      if prefix ''debug_inst'' (c_str (cmd_name c)) then None else Some (cmd_in c))"

text \<open>\<open>scripted rs\<close> holds of a state whose coming replies are \<open>rs 0\<close>, \<open>rs 1\<close>, ...,
  where no GPIO request fails and the table is as initialised in its frozen part.
  \<open>later m rs\<close> is what is left of the replies \<open>rs\<close> after \<open>m\<close> of them.\<close>

definition later :: "nat \<Rightarrow> (nat \<Rightarrow> byte) \<Rightarrow> nat \<Rightarrow> byte" where
  "later m rs = (\<lambda>j. rs (j + m))"

definition scripted :: "(nat \<Rightarrow> byte) \<Rightarrow> machine \<Rightarrow> bool" where
  "scripted rs s =
     (data_in s = reply_line rs \<and> ctl_fail s = (\<lambda>k. False)
      \<and> map frozen (cmds s) = map frozen cc2530_commands)"

text \<open>What the command-level operations leave alone: the memory, the behaviour of
  the GPIO requests and the frozen part of the table (\<open>env\<close>); and the image cursor
  with its log (\<open>cursor\<close>).\<close>

definition env ::
  "machine \<Rightarrow> byte list \<times> (nat \<Rightarrow> byte) \<times> byte \<times> (nat \<Rightarrow> bool)
               \<times> (string \<times> byte \<times> byte \<times> byte option) list" where
  "env s = (fwdata s, stray s, junk s, ctl_fail s, map frozen (cmds s))"

definition cursor :: "machine \<Rightarrow> 16 word \<times> nat list" where
  "cursor s = (flash_ptr s, fetched s)"

text \<open>\<open>pins_only s s'\<close>: the step from \<open>s\<close> to \<open>s'\<close> drove pins and did nothing else.
  \<open>wire_only s s'\<close>: it touched nothing but the GPIO backend and the debug flag.\<close>

definition pins_only :: "machine \<Rightarrow> machine \<Rightarrow> bool" where
  "pins_only s s' = (s' = s\<lparr>pins := pins s'\<rparr>)"

definition wire_only :: "machine \<Rightarrow> machine \<Rightarrow> bool" where
  "wire_only s s' =
     (s' = s\<lparr>pins := pins s', dirs := dirs s', data_in := data_in s',
             nsamples := nsamples s', nctl := nctl s', debug_enabled := debug_enabled s'\<rparr>)"

text \<open>Whether every index fetched through the cursor so far lies inside an image of
  \<open>l\<close> bytes.\<close>

definition fetches_within :: "nat \<Rightarrow> machine \<Rightarrow> bool" where
  "fetches_within l s = (filter (\<lambda>i. l \<le> i) (fetched s) = [])"

text \<open>Targets and command lines used as concrete inputs.  \<open>quiet_target fw\<close> is the
  state with the image \<open>fw\<close> loaded in front of a target that is ready at once and
  answers every command with 0, zeroed memory behind the image.  \<open>chip_line rs\<close> is the
  data line of a target that answers \<open>get_chip_id\<close> with the id \<open>0xA5\<close> and revision 0
  and then gives the replies \<open>rs\<close>; \<open>chip_replies c b\<close> are replies that are 0 during
  the identification except for \<open>c\<close> read from the first chip-info register, and \<open>b\<close>
  afterwards.  \<open>program_args fw\<close> is the command line \<^verbatim>\<open>-f file\<close> for a regular file with
  the bytes \<open>fw\<close>.\<close>

definition quiet_target :: "byte list \<Rightarrow> machine" where
  "quiet_target fw = (boot (\<lambda>k. False) (\<lambda>k. False) (\<lambda>i. 0) 0)\<lparr>fwdata := fw\<rparr>"

definition chip_line :: "(nat \<Rightarrow> byte) \<Rightarrow> nat \<Rightarrow> bool" where
  "chip_line rs k = (if k < 17 then k \<in> {1, 3, 6, 8} else reply_line rs (k - 17))"

definition chip_replies :: "byte \<Rightarrow> byte \<Rightarrow> nat \<Rightarrow> byte" where
  "chip_replies c b j = (if j = 15 then c else if j < 18 then 0 else b)"

definition program_args :: "byte list \<Rightarrow> invocation" where
  "program_args fw =
     \<lparr>do_identify = False, command = None, do_list = False, do_readback = False,
      firmware = Some (True, fw)\<rparr>"

text \<open>\<open>attached l s\<close> holds of a state in front of a target whose data line is going
  to show the levels \<open>l\<close>, where no GPIO request fails and the table is as initialised
  in its frozen part.  \<open>late_chip m rs\<close> is the data line of a target that answers the
  first \<open>m\<close> requests for its id with the id 0 and is a \<open>chip_line rs\<close> from then on.\<close>

definition attached :: "(nat \<Rightarrow> bool) \<Rightarrow> machine \<Rightarrow> bool" where
  "attached l s =
     (data_in s = l \<and> ctl_fail s = (\<lambda>k. False)
      \<and> map frozen (cmds s) = map frozen cc2530_commands)"

definition late_chip :: "nat \<Rightarrow> (nat \<Rightarrow> byte) \<Rightarrow> nat \<Rightarrow> bool" where
  "late_chip m rs k = (if k < 17 * m then False else chip_line rs (k - 17 * m))"

text \<open>The operations of the program as one family, each with its arguments, and the
  state an operation leaves behind (\<open>None\<close> when the process crashes).\<close>

datatype operation =
    Do_cmd "nat option" "byte list"
  | Burst_write
  | Enter_debug
  | Leave_debug
  | Gpio_init
  | Gpio_deinit
  | Chip_erase
  | Write_xdata_memory "16 word" byte
  | Read_xdata_memory "16 word" byte
  | Write_xdata_memory_block "16 word" "byte list"
  | Flash_verify "32 word"
  | Program_flash "16 word"
  | Chip_identify int
  | Do_program nat bool
  | Oneshot_command string
  | Main_function invocation

fun run_op :: "operation \<Rightarrow> machine \<Rightarrow> machine option" where
  "run_op (Do_cmd cmd params) s = map_option (\<lambda>p. snd (snd p)) (cc2530_do_cmd cmd params s)"
| "run_op Burst_write s = Some (snd (cc2530_burst_write s))"
| "run_op Enter_debug s = Some (cc2530_enter_debug s)"
| "run_op Leave_debug s = Some (cc2530_leave_debug s)"
| "run_op Gpio_init s = Some (snd (cc2530_gpio_init s))"
| "run_op Gpio_deinit s = Some (snd (cc2530_gpio_deinit s))"
| "run_op Chip_erase s = map_option snd (cc2530_chip_erase s)"
| "run_op (Write_xdata_memory addr v) s = map_option snd (cc2530_write_xdata_memory addr v s)"
| "run_op (Read_xdata_memory addr res) s =
     map_option (\<lambda>p. snd (snd p)) (cc2530_read_xdata_memory addr res s)"
| "run_op (Write_xdata_memory_block addr vs) s =
     map_option snd (cc2530_write_xdata_memory_block addr vs s)"
| "run_op (Flash_verify max_addr) s = map_option snd (cc2530_flash_verify max_addr s)"
| "run_op (Program_flash n) s = map_option snd (cc2530_program_flash n s)"
| "run_op (Chip_identify fs) s = map_option (\<lambda>p. snd (snd p)) (cc2530_chip_identify fs s)"
| "run_op (Do_program fwsize rb) s = map_option snd (cc2530_do_program fwsize rb s)"
| "run_op (Oneshot_command c) s = map_option snd (cc2530_oneshot_command c s)"
| "run_op (Main_function args) s = map_option snd (main args s)"

section \<open>Results about the pure parts\<close>

lemma strlen_c_str: "strlen s = length (c_str s)"
  by (induction s) (auto simp: c_str_def)

lemma of_char_NUL: "(of_char c :: nat) = 0 \<longleftrightarrow> c = NUL"
proof -
  have "(of_char c :: nat) = of_char NUL \<longleftrightarrow> c = NUL"
    by (rule of_char_eq_iff)
  then show ?thesis by (simp add: NUL_def)
qed

lemma strncmp_prefix:
  "(strncmp a q (strlen q) = 0) = prefix (c_str q) (c_str a)"
proof (induction q arbitrary: a)
  case Nil
  then show ?case by (simp add: c_str_def)
next
  case (Cons y ys)
  show ?case
  proof (cases "y = NUL")
    case True
    then show ?thesis by (simp add: c_str_def)
  next
    case yn: False
    show ?thesis
    proof (cases a)
      case Nil
      then show ?thesis using yn by (simp add: c_str_def of_char_NUL)
    next
      case (Cons x xs)
      show ?thesis
      proof (cases "x = y")
        case True
        then show ?thesis using Cons yn Cons.IH [of xs]
          by (simp add: c_str_def)
      next
        case False
        have "(of_char x :: nat) \<noteq> of_char y"
          using False by (simp only: of_char_eq_iff not_False_eq_True)
        then show ?thesis using False Cons yn by (auto simp: c_str_def)
      qed
    qed
  qed
qed

lemma NUL_notin_c_str: "NUL \<notin> set (c_str s)"
  by (induction s) (auto simp: c_str_def)

lemma c_str_idem: "c_str (c_str s) = c_str s"
  by (simp add: c_str_def)

lemma find_cmd_from_spec:
  "find_cmd_from i tbl q = first_prefix_match i tbl (c_str q)"
  by (induction tbl arbitrary: i) (simp_all add: strncmp_prefix)

section \<open>Steps that only touch the GPIO backend\<close>

lemma pins_onlyI: "s' = s\<lparr>pins := p\<rparr> \<Longrightarrow> pins_only s s'"
  by (simp add: pins_only_def)

lemma pins_only_refl: "pins_only s s"
  by (simp add: pins_only_def)

lemma pins_only_trans: "pins_only a b \<Longrightarrow> pins_only b c \<Longrightarrow> pins_only a c"
proof -
  assume "pins_only a b" and "pins_only b c"
  then have "b = a\<lparr>pins := pins b\<rparr>" and "c = b\<lparr>pins := pins c\<rparr>"
    by (simp_all add: pins_only_def)
  then have "c = a\<lparr>pins := pins c\<rparr>"
    by (metis machine.update_convs(1) machine.surjective)
  then show ?thesis by (rule pins_onlyI)
qed

lemma pins_onlyD:
  assumes "pins_only s s'"
  shows "dirs s' = dirs s" and "data_in s' = data_in s" and "nsamples s' = nsamples s"
    and "ctl_fail s' = ctl_fail s" and "nctl s' = nctl s" and "cmds s' = cmds s"
    and "flash_ptr s' = flash_ptr s" and "fwdata s' = fwdata s" and "stray s' = stray s"
    and "fetched s' = fetched s" and "junk s' = junk s"
    and "debug_enabled s' = debug_enabled s"
proof -
  have e: "s' = s\<lparr>pins := pins s'\<rparr>" using assms by (simp add: pins_only_def)
  show "dirs s' = dirs s" and "data_in s' = data_in s" and "nsamples s' = nsamples s"
    and "ctl_fail s' = ctl_fail s" and "nctl s' = nctl s" and "cmds s' = cmds s"
    and "flash_ptr s' = flash_ptr s" and "fwdata s' = fwdata s" and "stray s' = stray s"
    and "fetched s' = fetched s" and "junk s' = junk s"
    and "debug_enabled s' = debug_enabled s"
    by (subst e, simp)+
qed

lemma wire_onlyI:
  "s' = s\<lparr>pins := p, dirs := d, data_in := l, nsamples := n, nctl := c, debug_enabled := e\<rparr>
   \<Longrightarrow> wire_only s s'"
  by (simp add: wire_only_def)

lemma wire_only_refl: "wire_only s s"
  by (simp add: wire_only_def)

lemma wire_onlyD:
  assumes "wire_only s s'"
  shows "ctl_fail s' = ctl_fail s" and "cmds s' = cmds s"
    and "flash_ptr s' = flash_ptr s" and "fwdata s' = fwdata s" and "stray s' = stray s"
    and "fetched s' = fetched s" and "junk s' = junk s"
proof -
  have e: "s' = s\<lparr>pins := pins s', dirs := dirs s', data_in := data_in s',
             nsamples := nsamples s', nctl := nctl s', debug_enabled := debug_enabled s'\<rparr>"
    using assms by (simp add: wire_only_def)
  show "ctl_fail s' = ctl_fail s" and "cmds s' = cmds s"
    and "flash_ptr s' = flash_ptr s" and "fwdata s' = fwdata s" and "stray s' = stray s"
    and "fetched s' = fetched s" and "junk s' = junk s"
    by (subst e, simp)+
qed

lemma wire_only_eq:
  "wire_only s s' \<longleftrightarrow>
     ctl_fail s' = ctl_fail s \<and> cmds s' = cmds s \<and> flash_ptr s' = flash_ptr s
     \<and> fwdata s' = fwdata s \<and> stray s' = stray s \<and> fetched s' = fetched s
     \<and> junk s' = junk s \<and> machine.more s' = machine.more s"
  (is "?l \<longleftrightarrow> ?r")
proof
  assume ?l
  then show ?r by (auto dest: wire_onlyD)
next
  assume ?r
  then show ?l
    unfolding wire_only_def by (cases s, cases s') simp
qed

lemma wire_only_trans: "wire_only a b \<Longrightarrow> wire_only b c \<Longrightarrow> wire_only a c"
  by (simp add: wire_only_eq)

lemma pins_only_wire: "pins_only s s' \<Longrightarrow> wire_only s s'"
  by (simp add: wire_only_eq pins_onlyD)


lemma pins_only_eq:
  "pins_only s s' \<longleftrightarrow>
     dirs s' = dirs s \<and> data_in s' = data_in s \<and> nsamples s' = nsamples s
     \<and> nctl s' = nctl s \<and> debug_enabled s' = debug_enabled s \<and> wire_only s s'"
  (is "?l \<longleftrightarrow> ?r")
proof
  assume ?l
  then show ?r by (simp add: pins_onlyD pins_only_wire)
next
  assume ?r
  then show ?l
    unfolding pins_only_def wire_only_eq by (cases s, cases s') simp
qed

lemma gpio_set_value_pins: "pins_only s s1 \<Longrightarrow> pins_only s (gpio_set_value n v s1)"
  by (rule pins_only_trans) (simp_all add: gpio_set_value_def pins_only_def)

lemma send_bits_pins: "pins_only s s1 \<Longrightarrow> pins_only s (send_bits i b s1)"
  by (induction i arbitrary: s1) (simp_all add: gpio_set_value_pins)

lemma send_byte_pins: "pins_only s s1 \<Longrightarrow> pins_only s (send_byte b s1)"
  by (simp add: send_byte_def send_bits_pins)

lemma send_bytes_pins: "pins_only s s1 \<Longrightarrow> pins_only s (send_bytes bs s1)"
  by (induction bs arbitrary: s1) (simp_all add: send_byte_pins)

lemma clock_pulses_pins: "pins_only s s1 \<Longrightarrow> pins_only s (clock_pulses i s1)"
  by (induction i arbitrary: s1) (simp_all add: gpio_set_value_pins)

lemma enter_debug_pulses_pins: "pins_only s s1 \<Longrightarrow> pins_only s (enter_debug_pulses i s1)"
  by (induction i arbitrary: s1) (simp_all add: gpio_set_value_pins)

lemma cc2530_leave_debug_pins: "pins_only s s1 \<Longrightarrow> pins_only s (cc2530_leave_debug s1)"
  by (simp add: cc2530_leave_debug_def gpio_set_value_pins)

lemmas gpio_set_value_fields [simp] = pins_onlyD [OF gpio_set_value_pins [OF pins_only_refl]]
lemmas send_byte_fields [simp] = pins_onlyD [OF send_byte_pins [OF pins_only_refl]]
lemmas send_bytes_fields [simp] = pins_onlyD [OF send_bytes_pins [OF pins_only_refl]]
lemmas clock_pulses_fields [simp] = pins_onlyD [OF clock_pulses_pins [OF pins_only_refl]]
lemmas leave_debug_fields [simp] = pins_onlyD [OF cc2530_leave_debug_pins [OF pins_only_refl]]

lemma cc2530_enter_debug_fields [simp]:
  "data_in (cc2530_enter_debug s) = data_in s"
  "nsamples (cc2530_enter_debug s) = nsamples s"
  "nctl (cc2530_enter_debug s) = nctl s"
  "wire_only s (cc2530_enter_debug s)"
  by (simp_all add: cc2530_enter_debug_def wire_only_eq
        pins_onlyD [OF enter_debug_pulses_pins [OF pins_only_refl]])

lemma gpio_set_direction_fields [simp]:
  "fst (gpio_set_direction n d s) = (if ctl_fail s (nctl s) then - 1 else 0)"
  "data_in (snd (gpio_set_direction n d s)) = data_in s"
  "nsamples (snd (gpio_set_direction n d s)) = nsamples s"
  "nctl (snd (gpio_set_direction n d s)) = Suc (nctl s)"
  "wire_only s (snd (gpio_set_direction n d s))"
  by (simp_all add: gpio_set_direction_def wire_only_eq)

lemma gpio_export_fields [simp]:
  "fst (gpio_export n s) = (if ctl_fail s (nctl s) then - 1 else 0)"
  "data_in (snd (gpio_export n s)) = data_in s"
  "nsamples (snd (gpio_export n s)) = nsamples s"
  "nctl (snd (gpio_export n s)) = Suc (nctl s)"
  "wire_only s (snd (gpio_export n s))"
  by (simp_all add: gpio_export_def wire_only_eq)

lemma gpio_unexport_fields [simp]:
  "fst (gpio_unexport n s) = (if ctl_fail s (nctl s) then - 1 else 0)"
  "data_in (snd (gpio_unexport n s)) = data_in s"
  "nsamples (snd (gpio_unexport n s)) = nsamples s"
  "nctl (snd (gpio_unexport n s)) = Suc (nctl s)"
  "wire_only s (snd (gpio_unexport n s))"
  by (simp_all add: gpio_unexport_def wire_only_eq)

lemma gpio_get_value_fields [simp]:
  "fst (gpio_get_value n s) = data_in s 0"
  "data_in (snd (gpio_get_value n s)) = (\<lambda>k. data_in s (Suc k))"
  "nsamples (snd (gpio_get_value n s)) = Suc (nsamples s)"
  "nctl (snd (gpio_get_value n s)) = nctl s"
  "wire_only s (snd (gpio_get_value n s))"
  by (simp_all add: gpio_get_value_def wire_only_eq)

lemmas gpio_set_direction_keep [simp] = wire_onlyD [OF gpio_set_direction_fields(5)]
lemmas gpio_export_keep [simp] = wire_onlyD [OF gpio_export_fields(5)]
lemmas gpio_unexport_keep [simp] = wire_onlyD [OF gpio_unexport_fields(5)]
lemmas gpio_get_value_keep [simp] = wire_onlyD [OF gpio_get_value_fields(5)]
lemmas cc2530_enter_debug_keep [simp] = wire_onlyD [OF cc2530_enter_debug_fields(4)]

section \<open>Reading bytes\<close>

lemma sample_bits_shift:
  "sample_bits i acc (\<lambda>k. l (k + d)) p = sample_bits i acc l (p + d)"
  by (induction i arbitrary: acc p) simp_all

lemma sample_bits_shift':
  "sample_bits i acc (\<lambda>k. l (k + d)) p = sample_bits i acc l (d + p)"
  by (simp add: sample_bits_shift add.commute)

lemma read_bits_fields:
  "fst (read_bits i acc s) = sample_bits i acc (data_in s) 0
   \<and> data_in (snd (read_bits i acc s)) = (\<lambda>k. data_in s (k + i))
   \<and> nsamples (snd (read_bits i acc s)) = nsamples s + i
   \<and> nctl (snd (read_bits i acc s)) = nctl s
   \<and> wire_only s (snd (read_bits i acc s))"
proof (induction i arbitrary: acc s)
  case 0
  show ?case by (simp add: wire_only_refl)
next
  case (Suc i)
  let ?s1 = "gpio_set_value CCLK_GPIO False
               (snd (gpio_get_value DATA_GPIO (gpio_set_value CCLK_GPIO True s)))"
  have w: "wire_only s ?s1"
    by (simp add: wire_only_eq)
  have l: "data_in ?s1 = (\<lambda>k. data_in s (Suc k))" by simp
  show ?case
    using Suc.IH [of "if data_in s 0 then acc OR push_bit i 1 else acc" ?s1] w
    by (simp add: case_prod_beta l sample_bits_shift [of _ _ "data_in s" 1 0, simplified]
          wire_only_trans)
qed

lemma read_byte_fields [simp]:
  "fst (read_byte s) = sample_bits 8 0 (data_in s) 0"
  "data_in (snd (read_byte s)) = (\<lambda>k. data_in s (k + 8))"
  "nsamples (snd (read_byte s)) = nsamples s + 8"
  "nctl (snd (read_byte s)) = nctl s"
  "wire_only s (snd (read_byte s))"
  by (simp_all add: read_byte_def read_bits_fields)

lemmas read_byte_keep [simp] = wire_onlyD [OF read_byte_fields(5)]


lemma read_bytes_fields:
  "fst (read_bytes n s) = map (\<lambda>j. sample_bits 8 0 (data_in s) (8 * j)) [0..<n]
   \<and> data_in (snd (read_bytes n s)) = (\<lambda>k. data_in s (k + 8 * n))
   \<and> nsamples (snd (read_bytes n s)) = nsamples s + 8 * n
   \<and> nctl (snd (read_bytes n s)) = nctl s
   \<and> wire_only s (snd (read_bytes n s))"
proof (induction n arbitrary: s)
  case 0
  show ?case by (simp add: wire_only_refl)
next
  case (Suc n)
  let ?s1 = "snd (read_byte s)"
  let ?r = "read_bytes n ?s1"
  note ih = Suc.IH [of ?s1]
  have e: "read_bytes (Suc n) s = (fst (read_byte s) # fst ?r, snd ?r)"
    by (simp add: case_prod_beta)
  have "map (\<lambda>j. sample_bits 8 0 (data_in s) (8 * j)) [0..<Suc n]
           = sample_bits 8 0 (data_in s) 0
             # map (\<lambda>j. sample_bits 8 0 (data_in s) (8 * Suc j)) [0..<n]"
    by (simp only: map_upt_Suc) simp
  also have "map (\<lambda>j. sample_bits 8 0 (data_in s) (8 * Suc j)) [0..<n]
             = map (\<lambda>j. sample_bits 8 0 (data_in s) (8 * j + 8)) [0..<n]"
    by (rule map_cong [OF refl], rule arg_cong [where f = "sample_bits 8 0 (data_in s)"]) simp
  also have "\<dots> = fst ?r"
    using ih by (simp only: read_byte_fields sample_bits_shift)
  finally have 1: "fst (read_bytes (Suc n) s)
                   = map (\<lambda>j. sample_bits 8 0 (data_in s) (8 * j)) [0..<Suc n]"
    by (simp only: e fst_conv read_byte_fields)
  have e2: "snd (read_bytes (Suc n) s) = snd ?r"
    by (simp add: case_prod_beta)
  have "data_in (snd ?r) = (\<lambda>k. data_in s (k + 8 * n + 8))"
    using ih by simp
  also have "\<dots> = (\<lambda>k. data_in s (k + 8 * Suc n))"
    by (rule ext, rule arg_cong [where f = "data_in s"]) simp
  finally have 2: "data_in (snd (read_bytes (Suc n) s)) = (\<lambda>k. data_in s (k + 8 * Suc n))"
    unfolding e2 .
  have 3: "nsamples (snd (read_bytes (Suc n) s)) = nsamples s + 8 * Suc n"
    unfolding e2 using ih by simp
  have 4: "nctl (snd (read_bytes (Suc n) s)) = nctl s"
    unfolding e2 using ih by simp
  have 5: "wire_only s (snd (read_bytes (Suc n) s))"
    unfolding e2 using ih by (simp add: wire_only_eq)
  from 1 2 3 4 5 show ?case by blast
qed

lemmas read_bytes_simps [simp] =
  read_bytes_fields [THEN conjunct1]
  read_bytes_fields [THEN conjunct2, THEN conjunct1]
  read_bytes_fields [THEN conjunct2, THEN conjunct2, THEN conjunct1]
  read_bytes_fields [THEN conjunct2, THEN conjunct2, THEN conjunct2, THEN conjunct1]
  read_bytes_fields [THEN conjunct2, THEN conjunct2, THEN conjunct2, THEN conjunct2]

lemmas read_bytes_keep [simp] = wire_onlyD [OF read_bytes_simps(5)]

section \<open>The readiness poll\<close>

declare wait_ready.simps [simp del]

lemma wait_ready_low [simp]: "wait_ready False t s = (False, t, s)"
  by (subst wait_ready.simps) simp

lemma wait_ready_wire:
  "wire_only s (snd (snd (wait_ready v t s))) \<and> nctl (snd (snd (wait_ready v t s))) = nctl s"
proof (induction v t s rule: wait_ready.induct)
  case (1 val timeout s)
  show ?case
  proof (cases "val \<and> timeout \<noteq> 0")
    case True
    let ?p = "gpio_get_value DATA_GPIO (clock_pulses 8 s)"
    have w: "wire_only s (snd ?p)" by (simp add: wire_only_eq)
    have c: "nctl (snd ?p) = nctl s" by simp
    have ih: "wire_only (snd ?p) (snd (snd (wait_ready (fst ?p) (timeout - 1) (snd ?p))))
              \<and> nctl (snd (snd (wait_ready (fst ?p) (timeout - 1) (snd ?p)))) = nctl (snd ?p)"
      using True by (intro "1.IH") (simp_all add: gpio_get_value_def)
    have e: "wait_ready val timeout s = wait_ready (fst ?p) (timeout - 1) (snd ?p)"
      using True by (subst wait_ready.simps) (simp add: case_prod_beta)
    show ?thesis
      using ih w c unfolding e by (auto intro: wire_only_trans)
  next
    case False
    then have "snd (snd (wait_ready val timeout s)) = s"
      by (subst wait_ready.simps) auto
    then show ?thesis by (simp add: wire_only_refl)
  qed
qed

lemmas wait_ready_keep [simp] =
  wire_onlyD [OF wait_ready_wire [THEN conjunct1]] wait_ready_wire [THEN conjunct2]

text \<open>A data line that stays high: the poll runs its body once per unit of the
  counter and ends with the counter wrapped around.\<close>

lemma wait_ready_high:
  "data_in s = (\<lambda>k. True) \<Longrightarrow>
     fst (wait_ready True t s) = True
     \<and> fst (snd (wait_ready True t s)) = - 1
     \<and> nsamples (snd (snd (wait_ready True t s))) = nsamples s + unat t
     \<and> data_in (snd (snd (wait_ready True t s))) = (\<lambda>k. True)"
proof (induction "unat t" arbitrary: t s)
  case 0
  then have "t = 0" by (simp add: unat_eq_0)
  then show ?case using "0.prems" by (subst (1 2 3 4) wait_ready.simps) simp
next
  case (Suc n)
  then have t: "t \<noteq> 0" by auto
  let ?s1 = "snd (gpio_get_value DATA_GPIO (clock_pulses 8 s))"
  have n: "n = unat (t - 1)" using Suc.hyps(2) t by (simp add: unat_minus_one)
  have l: "data_in ?s1 = (\<lambda>k. True)" using Suc.prems by simp
  have v: "fst (gpio_get_value DATA_GPIO (clock_pulses 8 s)) = True"
    using Suc.prems by simp
  have e: "wait_ready True t s = wait_ready True (t - 1) ?s1"
    using t v by (subst wait_ready.simps) (simp add: case_prod_beta)
  show ?case
    using Suc.hyps(1) [OF n l] Suc.hyps(2) n
    by (simp add: e)
qed


section \<open>One command\<close>

lemma cc2530_do_cmd_wire:
  assumes "cc2530_do_cmd cmd params s = Some (r, a, s')"
  shows "wire_only s s'" and "r = 0 \<or> r = - 1" and "r \<noteq> 0 \<Longrightarrow> a = None"
  using assms
  by (auto simp: cc2530_do_cmd_def Let_def case_prod_beta wire_only_eq
           split: option.splits if_splits)

lemma sample_bits_high: "sample_bits 8 0 (\<lambda>k. True) p = 0xFF"
  by (simp add: eval_nat_numeral)

lemma cc2530_do_cmd_ready:
  assumes "ctl_fail s = (\<lambda>k. False)" and "c < length (cmds s)"
    and "unat (cmd_in (cmds s ! c)) \<le> length params" and "\<not> data_in s 0"
  shows "\<exists>s'. cc2530_do_cmd (Some c) params s
               = Some (0, Some (map (\<lambda>j. sample_bits 8 0 (data_in s) (8 * j + 1))
                                 [0..<unat (cmd_out (cmds s ! c))]), s')
              \<and> data_in s' = (\<lambda>k. data_in s (k + 8 * unat (cmd_out (cmds s ! c)) + 1))
              \<and> nsamples s' = nsamples s + 8 * unat (cmd_out (cmds s ! c)) + 1"
  using assms
  by (simp add: cc2530_do_cmd_def Let_def case_prod_beta DEFAULT_TIMEOUT_def
        sample_bits_shift [of _ _ _ 1, simplified])


section \<open>Replies\<close>

lemma sample_bits_decode:
  assumes "\<And>j. j < i \<Longrightarrow> l (p + j) = bit b (i - 1 - j)"
    and "\<And>n. bit acc n \<longleftrightarrow> i \<le> n \<and> bit b n"
  shows "sample_bits i acc l p = b"
  using assms
proof (induction i arbitrary: acc p)
  case 0
  then show ?case by (auto intro: bit_eqI)
next
  case (Suc i)
  have lp: "l p = bit b i" using Suc.prems(1) [of 0] by simp
  let ?acc = "if l p then acc OR push_bit i 1 else acc"
  have a: "\<And>j. j < i \<Longrightarrow> l (Suc p + j) = bit b (i - 1 - j)"
    using Suc.prems(1) [of "Suc j" for j] by simp
  have b: "\<And>n. bit ?acc n \<longleftrightarrow> i \<le> n \<and> bit b n"
  proof -
    fix n
    show "bit ?acc n \<longleftrightarrow> i \<le> n \<and> bit b n"
    proof (cases "bit b i")
      case True
      then have "i < 8" by (auto dest: bit_imp_le_length)
      then show ?thesis
        using True lp Suc.prems(2) [of n]
        by (auto simp: bit_or_iff bit_push_bit_iff bit_1_iff bit_exp_iff le_Suc_eq
                 dest: bit_imp_le_length)
    next
      case False
      then show ?thesis
        using lp Suc.prems(2) [of n] by (cases "n = i") auto
    qed
  qed
  show ?case
    using Suc.IH [of "Suc p" ?acc, OF a b] by simp
qed

lemma reply_line_decode: "sample_bits 8 0 (reply_line rs) (9 * m + 1) = rs m"
proof (rule sample_bits_decode)
  fix j :: nat
  assume "j < 8"
  then have "(9 * m + 1 + j) div 9 = m" and "(9 * m + 1 + j) mod 9 = Suc j"
    by simp_all
  then show "reply_line rs (9 * m + 1 + j) = bit (rs m) (8 - 1 - j)"
    by (simp add: reply_line_def reply_bit_def)
next
  fix n
  show "bit (0 :: byte) n \<longleftrightarrow> 8 \<le> n \<and> bit (rs m) n"
    by (auto dest: bit_imp_le_length)
qed

lemma reply_line_ready: "\<not> reply_line rs (9 * m)"
  by (simp add: reply_line_def reply_bit_def)

lemma reply_line_shift: "(\<lambda>k. reply_line rs (k + 9 * m)) = reply_line (later m rs)"
proof
  fix k
  have "(k + 9 * m) div 9 = k div 9 + m" and "(k + 9 * m) mod 9 = k mod 9"
    by simp_all
  then show "reply_line rs (k + 9 * m) = reply_line (later m rs) k"
    by (simp only: reply_line_def later_def)
qed

section \<open>The table\<close>

lemma find_cmd_from_bound:
  "find_cmd_from i tbl q = Some c \<Longrightarrow>
     i \<le> c \<and> c < i + length tbl \<and> prefix (c_str q) (c_str (cmd_name (tbl ! (c - i))))"
proof (induction tbl arbitrary: i)
  case Nil
  then show ?case by simp
next
  case (Cons e tbl)
  show ?case
  proof (cases "strncmp (cmd_name e) q (strlen q) = 0")
    case True
    then show ?thesis using Cons.prems by (auto simp: strncmp_prefix)
  next
    case False
    then have "find_cmd_from (Suc i) tbl q = Some c" using Cons.prems by simp
    from Cons.IH [OF this] show ?thesis by (auto simp: Suc_diff_le)
  qed
qed

lemma find_cmd_by_name_bound:
  "find_cmd_by_name tbl q = Some c \<Longrightarrow>
     c < length tbl \<and> prefix (c_str q) (c_str (cmd_name (tbl ! c)))"
  using find_cmd_from_bound [of 0 tbl q c] by (simp add: find_cmd_by_name_def)

lemma find_cmd_from_names:
  "map cmd_name tbl = map cmd_name tbl' \<Longrightarrow> find_cmd_from i tbl q = find_cmd_from i tbl' q"
proof (induction tbl arbitrary: i tbl')
  case Nil
  then show ?case by simp
next
  case (Cons e tbl)
  then obtain e' tbl2 where t: "tbl' = e' # tbl2" by (cases tbl') auto
  with Cons.prems have "cmd_name e = cmd_name e'" and "map cmd_name tbl = map cmd_name tbl2"
    by simp_all
  then show ?case using Cons.IH [of tbl2 "Suc i"] t by simp
qed

lemma frozen_names: "map frozen tbl = map frozen tbl' \<Longrightarrow> map cmd_name tbl = map cmd_name tbl'"
proof -
  assume e: "map frozen tbl = map frozen tbl'"
  have n: "\<And>t. map cmd_name t = map fst (map frozen t)"
    by (simp add: frozen_def)
  show ?thesis by (simp only: n e)
qed

lemma find_cmd_by_name_frozen:
  "map frozen tbl = map frozen tbl' \<Longrightarrow> find_cmd_by_name tbl q = find_cmd_by_name tbl' q"
  unfolding find_cmd_by_name_def by (rule find_cmd_from_names) (rule frozen_names)

lemma frozen_nth:
  "map frozen tbl = map frozen tbl' \<Longrightarrow> i < length tbl' \<Longrightarrow> frozen (tbl ! i) = frozen (tbl' ! i)"
proof -
  assume e: "map frozen tbl = map frozen tbl'" and i: "i < length tbl'"
  from e have l: "length tbl = length tbl'" by (rule map_eq_imp_length_eq)
  have "map frozen tbl ! i = map frozen tbl' ! i" by (simp add: e)
  then show ?thesis using i l by simp
qed

lemma frozen_set_in:
  assumes "find_cmd_by_name tbl ''debug_inst'' = Some c"
  shows "map frozen (tbl[c := (tbl ! c)\<lparr>cmd_in := n\<rparr>]) = map frozen tbl"
proof -
  have q: "c_str ''debug_inst'' = ''debug_inst''"
    by (simp add: c_str_def NUL_def)
  from find_cmd_by_name_bound [OF assms]
  have c: "c < length tbl" and p: "prefix ''debug_inst'' (c_str (cmd_name (tbl ! c)))"
    by (simp_all only: q)
  have f: "frozen ((tbl ! c)\<lparr>cmd_in := n\<rparr>) = frozen (tbl ! c)"
    using p by (simp add: frozen_def)
  have "map frozen (tbl[c := (tbl ! c)\<lparr>cmd_in := n\<rparr>])
        = (map frozen tbl)[c := frozen ((tbl ! c)\<lparr>cmd_in := n\<rparr>)]"
    by (rule map_update)
  also have "\<dots> = (map frozen tbl)[c := map frozen tbl ! c]"
    using c by (simp only: f nth_map)
  also have "\<dots> = map frozen tbl"
    by (rule list_update_id)
  finally show ?thesis .
qed


lemma frozen_fields:
  assumes "frozen a = frozen b"
  shows "cmd_name a = cmd_name b" and "cmd_id a = cmd_id b" and "cmd_out a = cmd_out b"
    and "\<not> prefix ''debug_inst'' (c_str (cmd_name b)) \<Longrightarrow> cmd_in a = cmd_in b"
  using assms by (auto simp: frozen_def split: if_splits)

lemma find_builtin:
  "find_cmd_by_name cc2530_commands ''erase'' = Some 0"
  "find_cmd_by_name cc2530_commands ''write_config'' = Some 1"
  "find_cmd_by_name cc2530_commands ''read_status'' = Some 4"
  "find_cmd_by_name cc2530_commands ''debug_inst'' = Some 7"
  "find_cmd_by_name cc2530_commands ''get_chip_id'' = Some 10"
  by (simp_all add: find_cmd_by_name_def find_cmd_from_spec cc2530_commands_def c_str_def
        NUL_def)

lemma scripted_find:
  "scripted rs s \<Longrightarrow> find_cmd_by_name (cmds s) q = find_cmd_by_name cc2530_commands q"
  by (rule find_cmd_by_name_frozen) (simp add: scripted_def)

lemma scripted_length: "scripted rs s \<Longrightarrow> length (cmds s) = 12"
proof -
  assume "scripted rs s"
  then have "length (map frozen (cmds s)) = length (map frozen cc2530_commands)"
    by (simp add: scripted_def)
  then show ?thesis by (simp add: cc2530_commands_def)
qed

lemma scripted_frozen:
  "scripted rs s \<Longrightarrow> i < 12 \<Longrightarrow> frozen (cmds s ! i) = frozen (cc2530_commands ! i)"
  by (rule frozen_nth) (simp_all add: scripted_def cc2530_commands_def)

lemma scripted_out:
  "scripted rs s \<Longrightarrow> i < 12 \<Longrightarrow> cmd_out (cmds s ! i) = cmd_out (cc2530_commands ! i)"
  by (rule frozen_fields(3)) (rule scripted_frozen)

lemma scripted_in:
  "scripted rs s \<Longrightarrow> i < 12 \<Longrightarrow>
     \<not> prefix ''debug_inst'' (c_str (cmd_name (cc2530_commands ! i))) \<Longrightarrow>
     cmd_in (cmds s ! i) = cmd_in (cc2530_commands ! i)"
  by (rule frozen_fields(4)) (rule scripted_frozen)

lemma scripted_entry:
  assumes "scripted rs s"
  shows "cmd_out (cmds s ! 0) = 1" and "cmd_in (cmds s ! 0) = 0"
    and "cmd_out (cmds s ! 1) = 1" and "cmd_in (cmds s ! 1) = 1"
    and "cmd_out (cmds s ! 4) = 1" and "cmd_in (cmds s ! 4) = 0"
    and "cmd_out (cmds s ! 7) = 1"
    and "cmd_out (cmds s ! 10) = 2" and "cmd_in (cmds s ! 10) = 0"
  by (simp_all add: scripted_out [OF assms] scripted_in [OF assms]
        cc2530_commands_def c_str_def NUL_def)

lemma cc2530_do_cmd_scripted:
  assumes "scripted rs s" and "c < 12" and "cmd_out (cmds s ! c) = 1"
    and "unat (cmd_in (cmds s ! c)) \<le> length params"
  shows "\<exists>s'. cc2530_do_cmd (Some c) params s = Some (0, Some [rs 0], s')
              \<and> scripted (later 1 rs) s' \<and> nsamples s' = nsamples s + 9
              \<and> wire_only s s'"
proof -
  have o: "unat (cmd_out (cmds s ! c)) = 1"
    using assms(3) by simp
  have "ctl_fail s = (\<lambda>k. False)" and "c < length (cmds s)" and "\<not> data_in s 0"
    using assms(1,2) scripted_length [OF assms(1)] reply_line_ready [of rs 0]
    by (simp_all add: scripted_def)
  from cc2530_do_cmd_ready [OF this(1,2) assms(4) this(3)] obtain s'
    where r: "cc2530_do_cmd (Some c) params s
               = Some (0, Some [sample_bits 8 0 (data_in s) 1], s')"
      and l: "data_in s' = (\<lambda>k. data_in s (k + 8 + 1))"
      and n: "nsamples s' = nsamples s + 8 + 1"
    by (auto simp: o)
  have d: "data_in s = reply_line rs" using assms(1) by (simp add: scripted_def)
  have b: "sample_bits 8 0 (data_in s) 1 = rs 0"
    using reply_line_decode [of rs 0] by (simp add: d)
  have "(\<lambda>k. reply_line rs (k + 8 + 1)) = (\<lambda>k. reply_line rs (k + 9 * 1))"
    by (rule ext, rule arg_cong [where f = "reply_line rs"]) simp
  then have l': "data_in s' = reply_line (later 1 rs)"
    by (simp only: l d reply_line_shift)
  have w: "wire_only s s'" using r by (rule cc2530_do_cmd_wire)
  have "scripted (later 1 rs) s'"
    using assms(1) l' wire_onlyD [OF w] by (simp add: scripted_def)
  then show ?thesis using r b n w by simp
qed


lemma later_later: "later a (later b rs) = later (a + b) rs"
  by (rule ext) (simp add: later_def add.assoc)

lemma later_const: "later m (\<lambda>j. b) = (\<lambda>j. b)"
  by (simp add: later_def)

lemma later_at: "later m rs j = rs (j + m)"
  by (simp add: later_def)

section \<open>The memory access layer\<close>

lemma env_wire: "wire_only s s' \<Longrightarrow> env s' = env s \<and> cursor s' = cursor s"
  by (simp add: env_def cursor_def wire_onlyD)

lemma set_cmd_in_fields [simp]:
  "data_in (set_cmd_in c n s) = data_in s"
  "ctl_fail (set_cmd_in c n s) = ctl_fail s"
  "nsamples (set_cmd_in c n s) = nsamples s"
  "nctl (set_cmd_in c n s) = nctl s"
  "flash_ptr (set_cmd_in c n s) = flash_ptr s"
  "fetched (set_cmd_in c n s) = fetched s"
  "fwdata (set_cmd_in c n s) = fwdata s"
  "stray (set_cmd_in c n s) = stray s"
  "junk (set_cmd_in c n s) = junk s"
  "cmds (set_cmd_in c n s) = (cmds s)[c := (cmds s ! c)\<lparr>cmd_in := n\<rparr>]"
  by (simp_all add: set_cmd_in_def)

lemma env_find:
  "env s' = env s \<Longrightarrow> find_cmd_by_name (cmds s') q = find_cmd_by_name (cmds s) q"
  by (rule find_cmd_by_name_frozen) (simp add: env_def)

lemma debug_instr_frame:
  assumes "debug_instr c n instr s = Some (r, a, s')"
    and "find_cmd_by_name (cmds s) ''debug_inst'' = Some c"
  shows "env s' = env s \<and> cursor s' = cursor s
         \<and> find_cmd_by_name (cmds s') ''debug_inst'' = Some c \<and> (r = 0 \<or> r = - 1)"
proof -
  have d: "cc2530_do_cmd (Some c) instr (set_cmd_in c n s) = Some (r, a, s')"
    using assms(1) by (simp add: debug_instr_def)
  note w = env_wire [OF cc2530_do_cmd_wire(1) [OF d]]
  have "env (set_cmd_in c n s) = env s" and "cursor (set_cmd_in c n s) = cursor s"
    by (simp_all add: env_def cursor_def frozen_set_in [OF assms(2)])
  with w have e: "env s' = env s" and k: "cursor s' = cursor s" by simp_all
  show ?thesis
    using e k env_find [OF e] assms(2) cc2530_do_cmd_wire(2) [OF d] by simp
qed

lemma debug_instr_scripted:
  assumes "scripted rs s" and "unat n \<le> length instr"
  shows "\<exists>s'. debug_instr 7 n instr s = Some (0, Some [rs 0], s')
              \<and> scripted (later 1 rs) s' \<and> env s' = env s \<and> cursor s' = cursor s"
proof -
  have f: "find_cmd_by_name (cmds s) ''debug_inst'' = Some 7"
    by (simp add: scripted_find [OF assms(1)] find_builtin)
  have sc: "scripted rs (set_cmd_in 7 n s)"
    using assms(1) by (simp add: scripted_def frozen_set_in [OF f])
  have i: "unat (cmd_in (cmds (set_cmd_in 7 n s) ! 7)) \<le> length instr"
    using assms(2) scripted_length [OF assms(1)] by simp
  from cc2530_do_cmd_scripted [OF sc _ scripted_entry(7) [OF sc] i]
  obtain s' where d: "debug_instr 7 n instr s = Some (0, Some [rs 0], s')"
    and s': "scripted (later 1 rs) s'"
    by (auto simp: debug_instr_def)
  from debug_instr_frame [OF d f] s' d show ?thesis by simp
qed

lemma cc2530_write_xdata_memory_frame:
  assumes "cc2530_write_xdata_memory addr v s = Some (r, s')"
  shows "env s' = env s \<and> cursor s' = cursor s \<and> (r = 0 \<or> r = - 1)"
  using assms unfolding cc2530_write_xdata_memory_def
  by (auto split: option.splits if_splits dest!: debug_instr_frame)

lemma cc2530_write_xdata_memory_scripted:
  assumes "scripted rs s"
  shows "\<exists>s'. cc2530_write_xdata_memory addr v s = Some (0, s') \<and> scripted (later 3 rs) s'"
proof -
  have f: "find_cmd_by_name (cmds s) ''debug_inst'' = Some 7"
    by (simp add: scripted_find [OF assms] find_builtin)
  have "unat (3 :: byte) \<le> length [0x90, HIBYTE addr, LOBYTE addr]" by simp
  from debug_instr_scripted [OF assms this]
  obtain s1 where 1: "debug_instr 7 3 [0x90, HIBYTE addr, LOBYTE addr] s
                       = Some (0, Some [rs 0], s1)"
    and sc1: "scripted (later 1 rs) s1" by blast
  have "unat (2 :: byte) \<le> length [0x74, v, LOBYTE addr]" by simp
  from debug_instr_scripted [OF sc1 this]
  obtain s2 where 2: "debug_instr 7 2 [0x74, v, LOBYTE addr] s1
                       = Some (0, Some [later 1 rs 0], s2)"
    and sc2: "scripted (later 1 (later 1 rs)) s2" by blast
  have "unat (1 :: byte) \<le> length [0xF0, v, LOBYTE addr]" by simp
  from debug_instr_scripted [OF sc2 this]
  obtain s3 where 3: "debug_instr 7 1 [0xF0, v, LOBYTE addr] s2
                       = Some (0, Some [later 1 (later 1 rs) 0], s3)"
    and sc3: "scripted (later 1 (later 1 (later 1 rs))) s3" by blast
  have "later 1 (later 1 (later 1 rs)) = later 3 rs"
    by (simp add: later_later eval_nat_numeral)
  with sc3 have "scripted (later 3 rs) s3" by simp
  then show ?thesis
    by (simp add: cc2530_write_xdata_memory_def f 1 2 3)
qed

lemma cc2530_read_xdata_memory_frame:
  assumes "cc2530_read_xdata_memory addr res s = Some (r, res', s')"
  shows "env s' = env s \<and> cursor s' = cursor s \<and> (r = 0 \<or> r = - 1)"
  using assms unfolding cc2530_read_xdata_memory_def
  by (auto split: option.splits if_splits dest!: debug_instr_frame)

lemma cc2530_read_xdata_memory_scripted:
  assumes "scripted rs s"
  shows "\<exists>s'. cc2530_read_xdata_memory addr res s = Some (0, rs 1, s')
              \<and> scripted (later 2 rs) s'"
proof -
  have f: "find_cmd_by_name (cmds s) ''debug_inst'' = Some 7"
    by (simp add: scripted_find [OF assms] find_builtin)
  have "unat (3 :: byte) \<le> length [0x90, HIBYTE addr, LOBYTE addr]" by simp
  from debug_instr_scripted [OF assms this]
  obtain s1 where 1: "debug_instr 7 3 [0x90, HIBYTE addr, LOBYTE addr] s
                       = Some (0, Some [rs 0], s1)"
    and sc1: "scripted (later 1 rs) s1" by blast
  have "unat (1 :: byte) \<le> length [0xE0, HIBYTE addr, LOBYTE addr]" by simp
  from debug_instr_scripted [OF sc1 this]
  obtain s2 where 2: "debug_instr 7 1 [0xE0, HIBYTE addr, LOBYTE addr] s1
                       = Some (0, Some [later 1 rs 0], s2)"
    and sc2: "scripted (later 1 (later 1 rs)) s2" by blast
  have "later 1 (later 1 rs) = later 2 rs"
    by (simp add: later_later eval_nat_numeral)
  with sc2 have "scripted (later 2 rs) s2" by simp
  then show ?thesis
    by (simp add: cc2530_read_xdata_memory_def f 1 2 stored_def later_def)
qed

section \<open>The claims about the tables\<close>

text \<open>Claim C5.  The 32-byte table \<open>dma_desc\<close> is four descriptors of eight bytes.
  Read with the documented layout (source, destination and length as big-endian 16-bit
  values, then the trigger byte and the mode byte), they are: debug port \<open>0x6260\<close> to
  buffer 0 at \<open>0x0000\<close>, debug port to buffer 1 at \<open>0x0400\<close>, buffer 0 to the flash
  data register \<open>0x6273\<close>, buffer 1 to the flash data register; every length is 1024;
  the debug channels have trigger 31 and mode \<open>0x11\<close>, the flash channels trigger 18 and
  mode \<open>0x42\<close>.\<close>

theorem dma_desc_layout:
  "length dma_desc = 32
   \<and> dma_desc = descriptor_at 0 @ descriptor_at 1 @ descriptor_at 2 @ descriptor_at 3
   \<and> decode_descriptor (descriptor_at 0)
       = \<lparr>dma_src = 0x6260, dma_dest = 0x0000, dma_len = 1024, dma_trigger = 31, dma_mode = 0x11\<rparr>
   \<and> decode_descriptor (descriptor_at 1)
       = \<lparr>dma_src = 0x6260, dma_dest = 0x0400, dma_len = 1024, dma_trigger = 31, dma_mode = 0x11\<rparr>
   \<and> decode_descriptor (descriptor_at 2)
       = \<lparr>dma_src = 0x0000, dma_dest = 0x6273, dma_len = 1024, dma_trigger = 18, dma_mode = 0x42\<rparr>
   \<and> decode_descriptor (descriptor_at 3)
       = \<lparr>dma_src = 0x0400, dma_dest = 0x6273, dma_len = 1024, dma_trigger = 18, dma_mode = 0x42\<rparr>"
  by (simp add: dma_desc_def descriptor_at_def decode_descriptor_def be16_def HIBYTE_def LOBYTE_def
      DBGDATA_def ADDR_BUF0_def ADDR_BUF1_def FWDATA_def PROG_BLOCK_SIZE_def)

text \<open>Claim C7.  For any table and any query, \<open>find_cmd_by_name\<close> returns the first
  entry in table order whose name starts with the query, the comparison covering only
  the \<open>strlen\<close> characters of the query.  On the table of the program, the name of each
  of the twelve entries finds that entry, and a strict prefix of longer names finds the
  first of them (\<open>get_\<close> finds \<open>get_pc\<close>, \<open>read\<close> finds \<open>read_config\<close>, the empty string
  finds \<open>erase\<close>); a query that is longer than the name it starts with finds nothing.\<close>

theorem find_cmd_by_name_first_prefix:
  "find_cmd_by_name tbl q = first_prefix_match 0 tbl (c_str q)
   \<and> map (\<lambda>c. find_cmd_by_name cc2530_commands (cmd_name c)) cc2530_commands
       = map Some [0 ..< 12]
   \<and> find_cmd_by_name cc2530_commands ''get_'' = Some 3
   \<and> find_cmd_by_name cc2530_commands ''read'' = Some 2
   \<and> find_cmd_by_name cc2530_commands [] = Some 0
   \<and> find_cmd_by_name cc2530_commands ''erase_all'' = None"
  apply (intro conjI)
       apply (simp add: find_cmd_by_name_def find_cmd_from_spec)
      apply (simp add: find_cmd_by_name_def find_cmd_from_spec cc2530_commands_def c_str_def
                       NUL_def upt_rec)
     apply (simp_all add: find_cmd_by_name_def find_cmd_from_spec cc2530_commands_def c_str_def
                          NUL_def)
  done

lemmas wait_ready_high_simps =
  wait_ready_high [THEN conjunct1]
  wait_ready_high [THEN conjunct2, THEN conjunct1]
  wait_ready_high [THEN conjunct2, THEN conjunct2, THEN conjunct1]
  wait_ready_high [THEN conjunct2, THEN conjunct2, THEN conjunct2]

lemma cc2530_do_cmd_high:
  assumes "ctl_fail s = (\<lambda>k. False)" and "c < length (cmds s)"
    and "unat (cmd_in (cmds s ! c)) \<le> length params" and "data_in s = (\<lambda>k. True)"
  shows "\<exists>s'. cc2530_do_cmd (Some c) params s
               = Some (0, Some (replicate (unat (cmd_out (cmds s ! c))) 0xFF), s')
              \<and> nsamples s' = nsamples s + 1 + 1000 + 8 * unat (cmd_out (cmds s ! c))"
  using assms
  by (simp add: cc2530_do_cmd_def Let_def case_prod_beta sample_bits_high
        wait_ready_high_simps map_replicate_const DEFAULT_TIMEOUT_def)

text \<open>Claim C1, at a data line that never goes low, for the command \<open>read_status\<close>.
  The poll runs its body 1000 times (1000 reads of the line after the first one) and
  leaves the loop with the counter wrapped around to \<open>0xFFFFFFFF\<close>, because the
  decrement in \<^verbatim>\<open>while (val && timeout--)\<close> is applied to the counter 0 as well.  The
  test \<^verbatim>\<open>if (!timeout)\<close> therefore does not fire: the call returns 0 and has read the
  response byte (eight more reads), \<open>0xFF\<close>.\<close>

theorem cc2530_do_cmd_line_stuck_high:
  "\<exists>s'. cc2530_do_cmd (find_cmd_by_name cc2530_commands ''read_status'') []
           (boot (\<lambda>k. True) (\<lambda>k. False) mem j) = Some (0, Some [0xFF], s')
        \<and> nsamples s' = 1 + 1000 + 8
        \<and> fst (snd (wait_ready True DEFAULT_TIMEOUT (boot (\<lambda>k. True) (\<lambda>k. False) mem j)))
            = 0xFFFFFFFF
        \<and> nsamples (snd (snd (wait_ready True DEFAULT_TIMEOUT
                                 (boot (\<lambda>k. True) (\<lambda>k. False) mem j)))) = 1000"
proof -
  let ?s = "boot (\<lambda>k. True) (\<lambda>k. False) mem j"
  have "ctl_fail ?s = (\<lambda>k. False)" and "4 < length (cmds ?s)"
    and "unat (cmd_in (cmds ?s ! 4)) \<le> length ([] :: byte list)"
    and l: "data_in ?s = (\<lambda>k. True)"
    by (simp_all add: boot_def cc2530_commands_def)
  from cc2530_do_cmd_high [OF this]
  have "\<exists>s'. cc2530_do_cmd (Some 4) [] ?s = Some (0, Some [0xFF], s')
             \<and> nsamples s' = 1 + 1000 + 8"
    by (simp add: boot_def cc2530_commands_def)
  then show ?thesis
    using wait_ready_high [OF l, of DEFAULT_TIMEOUT]
    by (simp add: find_builtin DEFAULT_TIMEOUT_def boot_def)
qed

section \<open>The image cursor\<close>

lemma get_next_flash_byte_fields [simp]:
  "fst (get_next_flash_byte s) = fw_byte s (unat (flash_ptr s))"
  "flash_ptr (snd (get_next_flash_byte s)) = flash_ptr s + 1"
  "fetched (snd (get_next_flash_byte s)) = fetched s @ [unat (flash_ptr s)]"
  "fwdata (snd (get_next_flash_byte s)) = fwdata s"
  "stray (snd (get_next_flash_byte s)) = stray s"
  "junk (snd (get_next_flash_byte s)) = junk s"
  "cmds (snd (get_next_flash_byte s)) = cmds s"
  "ctl_fail (snd (get_next_flash_byte s)) = ctl_fail s"
  "data_in (snd (get_next_flash_byte s)) = data_in s"
  "nsamples (snd (get_next_flash_byte s)) = nsamples s"
  "nctl (snd (get_next_flash_byte s)) = nctl s"
  by (simp_all add: get_next_flash_byte_def)

lemma fw_byte_cong:
  "fwdata s' = fwdata s \<Longrightarrow> stray s' = stray s \<Longrightarrow> fw_byte s' = fw_byte s"
  by (rule ext) (simp add: fw_byte_def)

lemma upt_shift_map: "map f [0..<Suc n] = f 0 # map (\<lambda>k. f (Suc k)) [0..<n]"
  by (simp only: map_upt_Suc)

lemma fetch_bytes_fields:
  "fst (fetch_bytes n s) = map (\<lambda>k. fw_byte s (unat (flash_ptr s + of_nat k))) [0..<n]
   \<and> fetched (snd (fetch_bytes n s))
       = fetched s @ map (\<lambda>k. unat (flash_ptr s + of_nat k)) [0..<n]
   \<and> flash_ptr (snd (fetch_bytes n s)) = flash_ptr s + of_nat n"
proof (induction n arbitrary: s)
  case 0
  show ?case by simp
next
  case (Suc n)
  let ?s1 = "snd (get_next_flash_byte s)"
  have c: "fw_byte ?s1 = fw_byte s" by (rule fw_byte_cong) simp_all
  have a: "\<And>k. flash_ptr s + 1 + of_nat k = flash_ptr s + of_nat (Suc k)"
    by simp
  show ?case
    using Suc.IH [of ?s1]
    by (simp only: fetch_bytes.simps case_prod_beta fst_conv snd_conv upt_shift_map
          get_next_flash_byte_fields c a)
       (simp add: add.assoc)
qed

lemma unat_of_nat_16: "unat (of_nat k :: 16 word) = k mod 65536"
  by (simp add: unat_of_nat)


section \<open>The burst write\<close>

lemma burst_bytes_fields:
  "flash_ptr (burst_bytes n s) = flash_ptr s + of_nat n
   \<and> fetched (burst_bytes n s) = fetched s @ map (\<lambda>k. unat (flash_ptr s + of_nat k)) [0..<n]
   \<and> fwdata (burst_bytes n s) = fwdata s \<and> stray (burst_bytes n s) = stray s
   \<and> junk (burst_bytes n s) = junk s \<and> cmds (burst_bytes n s) = cmds s
   \<and> ctl_fail (burst_bytes n s) = ctl_fail s \<and> data_in (burst_bytes n s) = data_in s
   \<and> nsamples (burst_bytes n s) = nsamples s \<and> nctl (burst_bytes n s) = nctl s"
proof (induction n arbitrary: s)
  case 0
  show ?case by simp
next
  case (Suc n)
  let ?s1 = "send_byte (fst (get_next_flash_byte s)) (snd (get_next_flash_byte s))"
  have a: "\<And>k. flash_ptr s + 1 + of_nat k = flash_ptr s + of_nat (Suc k)"
    by simp
  have p: "flash_ptr ?s1 = flash_ptr s + 1" and f: "fetched ?s1 = fetched s @ [unat (flash_ptr s)]"
    by simp_all
  have e: "burst_bytes (Suc n) s = burst_bytes n ?s1"
    by (simp add: case_prod_beta)
  show ?case
    unfolding e using Suc.IH [of ?s1]
    by (simp only: p f a upt_shift_map) (simp add: add.assoc)
qed

lemmas burst_bytes_simps [simp] =
  burst_bytes_fields [THEN conjunct1]
  burst_bytes_fields [THEN conjunct2, THEN conjunct1]
  burst_bytes_fields [THEN conjunct2, THEN conjunct2, THEN conjunct1]
  burst_bytes_fields [THEN conjunct2, THEN conjunct2, THEN conjunct2, THEN conjunct1]
  burst_bytes_fields [THEN conjunct2, THEN conjunct2, THEN conjunct2, THEN conjunct2,
    THEN conjunct1]
  burst_bytes_fields [THEN conjunct2, THEN conjunct2, THEN conjunct2, THEN conjunct2,
    THEN conjunct2, THEN conjunct1]
  burst_bytes_fields [THEN conjunct2, THEN conjunct2, THEN conjunct2, THEN conjunct2,
    THEN conjunct2, THEN conjunct2, THEN conjunct1]
  burst_bytes_fields [THEN conjunct2, THEN conjunct2, THEN conjunct2, THEN conjunct2,
    THEN conjunct2, THEN conjunct2, THEN conjunct2, THEN conjunct1]
  burst_bytes_fields [THEN conjunct2, THEN conjunct2, THEN conjunct2, THEN conjunct2,
    THEN conjunct2, THEN conjunct2, THEN conjunct2, THEN conjunct2, THEN conjunct1]
  burst_bytes_fields [THEN conjunct2, THEN conjunct2, THEN conjunct2, THEN conjunct2,
    THEN conjunct2, THEN conjunct2, THEN conjunct2, THEN conjunct2, THEN conjunct2]

text \<open>The indices one burst fetches, from the cursor \<open>p\<close>.\<close>

lemma cc2530_burst_write_env: "env (snd (cc2530_burst_write s)) = env s"
  by (simp add: cc2530_burst_write_def Let_def case_prod_beta env_def)

lemma cc2530_burst_write_cursor:
  "\<not> ctl_fail s (nctl s) \<Longrightarrow>
     flash_ptr (snd (cc2530_burst_write s)) = flash_ptr s + 1024
     \<and> fetched (snd (cc2530_burst_write s))
         = fetched s @ map (\<lambda>k. unat (flash_ptr s + of_nat k)) [0..<1024]"
  by (simp add: cc2530_burst_write_def Let_def case_prod_beta PROG_BLOCK_SIZE_def)

lemma cc2530_burst_write_scripted:
  assumes "scripted rs s"
  shows "scripted (later 1 rs) (snd (cc2530_burst_write s))"
proof -
  have c: "ctl_fail s = (\<lambda>k. False)" and d: "data_in s = reply_line rs"
    and t: "map frozen (cmds s) = map frozen cc2530_commands"
    using assms by (simp_all add: scripted_def)
  have r: "\<not> reply_line rs 0" using reply_line_ready [of rs 0] by simp
  have "(\<lambda>k. reply_line rs (Suc (k + 8))) = (\<lambda>k. reply_line rs (k + 9 * 1))"
    by (rule ext, rule arg_cong [where f = "reply_line rs"]) simp
  then have l: "(\<lambda>k. reply_line rs (Suc (k + 8))) = reply_line (later 1 rs)"
    by (simp only: reply_line_shift)
  show ?thesis
    using c d t r l
    by (simp add: cc2530_burst_write_def Let_def case_prod_beta scripted_def
          DEFAULT_TIMEOUT_def)
qed

section \<open>Writing a block of memory\<close>

lemma write_block_loop_frame:
  "write_block_loop c lo vs s = Some (r, s') \<Longrightarrow>
   find_cmd_by_name (cmds s) ''debug_inst'' = Some c \<longrightarrow>
     env s' = env s \<and> cursor s' = cursor s \<and> (r = 0 \<or> r = - 1)"
proof (induction vs arbitrary: s)
  case Nil
  then show ?case by simp
next
  case (Cons v vs)
  from Cons.prems show ?case
    by (auto split: option.splits if_splits dest!: debug_instr_frame Cons.IH)
qed

lemma cc2530_write_xdata_memory_block_frame:
  assumes "cc2530_write_xdata_memory_block addr vs s = Some (r, s')"
  shows "env s' = env s \<and> cursor s' = cursor s \<and> (r = 0 \<or> r = - 1)"
  using assms unfolding cc2530_write_xdata_memory_block_def
  by (auto split: option.splits if_splits dest!: debug_instr_frame write_block_loop_frame)

lemma write_block_loop_steady:
  "scripted (\<lambda>j. b) s \<Longrightarrow>
     \<exists>s'. write_block_loop 7 lo vs s = Some (0, s') \<and> scripted (\<lambda>j. b) s'"
proof (induction vs arbitrary: s)
  case Nil
  then show ?case by simp
next
  case (Cons v vs)
  have "unat (2 :: byte) \<le> length [0x74, v, lo]" by simp
  from debug_instr_scripted [OF Cons.prems this]
  obtain s1 where 1: "debug_instr 7 2 [0x74, v, lo] s = Some (0, Some [b], s1)"
    and sc1: "scripted (\<lambda>j. b) s1" by (auto simp: later_const)
  have "unat (1 :: byte) \<le> length [0xF0, v, lo]" by simp
  from debug_instr_scripted [OF sc1 this]
  obtain s2 where 2: "debug_instr 7 1 [0xF0, v, lo] s1 = Some (0, Some [b], s2)"
    and sc2: "scripted (\<lambda>j. b) s2" by (auto simp: later_const)
  have "unat (1 :: byte) \<le> length [0xA3, v, lo]" by simp
  from debug_instr_scripted [OF sc2 this]
  obtain s3 where 3: "debug_instr 7 1 [0xA3, v, lo] s2 = Some (0, Some [b], s3)"
    and sc3: "scripted (\<lambda>j. b) s3" by (auto simp: later_const)
  from Cons.IH [OF sc3] show ?case by (simp add: 1 2 3)
qed

lemma cc2530_write_xdata_memory_block_steady:
  assumes "scripted (\<lambda>j. b) s"
  shows "\<exists>s'. cc2530_write_xdata_memory_block addr vs s = Some (0, s')
              \<and> scripted (\<lambda>j. b) s'"
proof -
  have f: "find_cmd_by_name (cmds s) ''debug_inst'' = Some 7"
    by (simp add: scripted_find [OF assms] find_builtin)
  have "unat (3 :: byte) \<le> length [0x90, HIBYTE addr, LOBYTE addr]" by simp
  from debug_instr_scripted [OF assms this]
  obtain s1 where 1: "debug_instr 7 3 [0x90, HIBYTE addr, LOBYTE addr] s
                       = Some (0, Some [b], s1)"
    and sc1: "scripted (\<lambda>j. b) s1" by (auto simp: later_const)
  from write_block_loop_steady [OF sc1] show ?thesis
    by (simp add: cc2530_write_xdata_memory_block_def f 1)
qed

lemma cc2530_write_xdata_memory_steady:
  "scripted (\<lambda>j. b) s \<Longrightarrow>
     \<exists>s'. cc2530_write_xdata_memory addr v s = Some (0, s') \<and> scripted (\<lambda>j. b) s'"
  using cc2530_write_xdata_memory_scripted [of "\<lambda>j. b" s addr v]
  by (simp add: later_const)

lemma cc2530_read_xdata_memory_steady:
  "scripted (\<lambda>j. b) s \<Longrightarrow>
     \<exists>s'. cc2530_read_xdata_memory addr res s = Some (0, b, s') \<and> scripted (\<lambda>j. b) s'"
  using cc2530_read_xdata_memory_scripted [of "\<lambda>j. b" s addr res]
  by (simp add: later_const)

section \<open>Waiting for the flash controller\<close>

declare fctl_poll.simps [simp del]

lemma unat_pred_less: "t \<noteq> 0 \<Longrightarrow> unat (t - 1) < unat (t :: 'a::len word)"
  by (simp add: unat_minus_one unat_gt_0)

lemma fctl_poll_frame:
  "fctl_poll w res t s = Some (x, s') \<Longrightarrow>
     env s' = env s \<and> cursor s' = cursor s
     \<and> (case x of Inl r \<Rightarrow> r = - 1 | Inr (t', w', res') \<Rightarrow> w' = 1)"
proof (induction "unat t" arbitrary: t s w res rule: less_induct)
  case less
  have ih: "fctl_poll w' res' (t - 1) s1 = Some (x, s') \<Longrightarrow>
            t \<noteq> 0 \<longrightarrow> env s' = env s1 \<and> cursor s' = cursor s1
              \<and> (case x of Inl r \<Rightarrow> r = - 1 | Inr (t', w', res') \<Rightarrow> w' = 1)"
    for w' res' s1
    using less.hyps [of "t - 1" w' res' s1] unat_pred_less [of t] by blast
  from less.prems show ?case
    by (subst (asm) fctl_poll.simps)
       (auto split: option.splits if_splits dest!: cc2530_read_xdata_memory_frame ih)
qed

lemma fctl_poll_idle:
  assumes "scripted (\<lambda>j. b) s" and "b AND FCTL_BUSY = 0"
  shows "\<exists>s'. fctl_poll w res t s = Some (Inr (t, 1, b), s') \<and> scripted (\<lambda>j. b) s'"
  using cc2530_read_xdata_memory_steady [OF assms(1), of FCTL res] assms(2)
  by (subst fctl_poll.simps) auto

text \<open>A controller that stays busy: the loop ends only when the counter has been
  decremented at the value 0, with the counter wrapped around.\<close>

lemma fctl_poll_busy:
  "scripted (\<lambda>j. b) s \<Longrightarrow> b AND FCTL_BUSY \<noteq> 0 \<Longrightarrow>
     \<exists>s'. fctl_poll w res t s = Some (Inr (- 1, 1, b), s') \<and> scripted (\<lambda>j. b) s'"
proof (induction "unat t" arbitrary: t s w res)
  case 0
  then have t: "t = 0" by (simp add: unat_eq_0)
  from cc2530_read_xdata_memory_steady [OF "0.prems"(1), of FCTL res] "0.prems"(2) t
  show ?case by (subst fctl_poll.simps) auto
next
  case (Suc n)
  then have t: "t \<noteq> 0" by auto
  have n: "n = unat (t - 1)" using Suc.hyps(2) t by (simp add: unat_minus_one)
  from cc2530_read_xdata_memory_steady [OF Suc.prems(1), of FCTL res]
  obtain s1 where 1: "cc2530_read_xdata_memory FCTL res s = Some (0, b, s1)"
    and sc1: "scripted (\<lambda>j. b) s1" by blast
  from Suc.hyps(1) [OF n sc1 Suc.prems(2), of 1 b]
  show ?case using t Suc.prems(2) by (subst fctl_poll.simps) (simp add: 1)
qed

section \<open>The loop over the blocks\<close>

declare program_blocks.simps [simp del]

lemma env_ctl: "env s' = env s \<Longrightarrow> ctl_fail s' = ctl_fail s"
  by (simp add: env_def)

lemma cursor_eq: "cursor s' = cursor s \<longleftrightarrow> flash_ptr s' = flash_ptr s \<and> fetched s' = fetched s"
  by (auto simp: cursor_def)

lemma blocks_left: "i < n \<Longrightarrow> unat n - unat i = Suc (unat n - unat (i + 1))"
  for i n :: "16 word"
  by unat_arith

lemma fetched_append:
  "map (\<lambda>k. unat (p + of_nat k)) [0..<a]
     @ map (\<lambda>k. unat (p + of_nat a + of_nat k)) [0..<b]
   = map (\<lambda>k. unat (p + of_nat k)) [0..<a + b]"
  for p :: "16 word"
proof -
  have "map (\<lambda>k. unat (p + of_nat a + of_nat k)) [0..<b]
        = map (\<lambda>k. unat (p + of_nat k)) (map (\<lambda>k. k + a) [0..<b])"
    by (simp add: comp_def ac_simps)
  also have "map (\<lambda>k. k + a) [0..<b] = [a..<a + b]"
    by (simp add: map_add_upt add.commute)
  finally show ?thesis
    by (simp add: upt_add_eq_append [of 0 a b, simplified])
qed

lemma cc2530_burst_write_pair:
  assumes "cc2530_burst_write s = (r, s')"
  shows "env s' = env s
     \<and> (ctl_fail s = (\<lambda>k. False) \<longrightarrow>
          flash_ptr s' = flash_ptr s + 1024
          \<and> fetched s' = fetched s @ map (\<lambda>k. unat (flash_ptr s + of_nat k)) [0..<1024])"
proof -
  have s': "s' = snd (cc2530_burst_write s)" by (simp add: assms)
  have "ctl_fail s = (\<lambda>k. False) \<Longrightarrow> \<not> ctl_fail s (nctl s)" by simp
  then show ?thesis
    unfolding s' using cc2530_burst_write_env [of s] cc2530_burst_write_cursor [of s]
    by blast
qed

text \<open>One block: whatever the target does, \<open>max_speed\<close> is left as it is, and a
  block that is completed has fetched 1024 bytes through the cursor.\<close>

lemma program_block_env:
  "program_block i ms res t s = Some (x, s') \<Longrightarrow>
     env s' = env s
     \<and> (case x of Inl r \<Rightarrow> r = 255 | Inr (ms', res', t') \<Rightarrow> ms' = ms)"
  unfolding program_block_def Let_def
  by (auto split: option.splits if_splits prod.splits sum.splits
           dest!: cc2530_write_xdata_memory_frame cc2530_burst_write_pair fctl_poll_frame)


lemma frame_fields:
  "env s' = env s \<and> cursor s' = cursor s \<and> Q \<Longrightarrow>
     ctl_fail s' = ctl_fail s \<and> flash_ptr s' = flash_ptr s \<and> fetched s' = fetched s \<and> Q"
  by (simp add: env_def cursor_def)

lemma cc2530_burst_write_fields:
  "cc2530_burst_write s = (r, s') \<Longrightarrow>
     ctl_fail s' = ctl_fail s
     \<and> (ctl_fail s = (\<lambda>k. False) \<longrightarrow>
          flash_ptr s' = flash_ptr s + 1024
          \<and> fetched s' = fetched s @ map (\<lambda>k. unat (flash_ptr s + of_nat k)) [0..<1024])"
  using cc2530_burst_write_pair [of s r s'] by (simp add: env_def)

lemma program_block_cursor:
  "program_block i ms res t s = Some (Inr y, s') \<Longrightarrow> ctl_fail s = (\<lambda>k. False) \<Longrightarrow>
     flash_ptr s' = flash_ptr s + 1024
     \<and> fetched s' = fetched s @ map (\<lambda>k. unat (flash_ptr s + of_nat k)) [0..<1024]"
  unfolding program_block_def Let_def
  by (auto split: option.splits if_splits prod.splits sum.splits
           dest!: frame_fields [OF cc2530_write_xdata_memory_frame]
                  frame_fields [OF fctl_poll_frame]
                  cc2530_burst_write_fields)

declare program_block_def [simp del]

lemma program_blocks_frame:
  "program_blocks i n ms res t s = Some (x, s') \<Longrightarrow>
     env s' = env s
     \<and> (case x of Inl r \<Rightarrow> r = 255 | Inr (ms', res', t') \<Rightarrow> ms' = ms)"
proof (induction "unat n - unat i" arbitrary: i s ms res t x rule: less_induct)
  case less
  have ih: "program_blocks (i + 1) n ms1 res1 t1 s1 = Some (x1, s') \<Longrightarrow>
            i < n \<longrightarrow> env s' = env s1
              \<and> (case x1 of Inl r \<Rightarrow> r = 255 | Inr (ms', res', t') \<Rightarrow> ms' = ms1)"
    for ms1 res1 t1 s1 x1
    using less.hyps [of "i + 1" ms1 res1 t1 s1 x1] blocks_left [of i n] by simp
  from less.prems show ?case
    by (subst (asm) program_blocks.simps)
       (auto split: option.splits if_splits sum.splits dest!: program_block_env ih)
qed

lemma program_blocks_cursor:
  "program_blocks i n ms res t s = Some (Inr y, s') \<Longrightarrow> ctl_fail s = (\<lambda>k. False) \<Longrightarrow>
     flash_ptr s' = flash_ptr s + of_nat ((unat n - unat i) * 1024)
     \<and> fetched s' = fetched s @ map (\<lambda>k. unat (flash_ptr s + of_nat k))
                                    [0..<(unat n - unat i) * 1024]"
proof (induction "unat n - unat i" arbitrary: i s ms res t rule: less_induct)
  case less
  show ?case
  proof (cases "i < n")
    case False
    then have "unat n - unat i = 0" by (simp add: word_less_nat_alt)
    then show ?thesis
      using less.prems False by (subst (asm) program_blocks.simps) auto
  next
    case True
    note left = blocks_left [OF True]
    from less.prems(1) True obtain ms1 res1 t1 s1
      where b: "program_block i ms res t s = Some (Inr (ms1, res1, t1), s1)"
        and r: "program_blocks (i + 1) n ms1 res1 t1 s1 = Some (Inr y, s')"
      by (subst (asm) program_blocks.simps)
         (auto split: option.splits sum.splits)
    note c1 = program_block_cursor [OF b less.prems(2)]
    have "ctl_fail s1 = (\<lambda>k. False)"
      using program_block_env [OF b] less.prems(2) by (simp add: env_def)
    from less.hyps [OF _ r this] left
    have c2: "flash_ptr s' = flash_ptr s1 + of_nat ((unat n - unat (i + 1)) * 1024)"
      and c3: "fetched s' = fetched s1 @ map (\<lambda>k. unat (flash_ptr s1 + of_nat k))
                                           [0..<(unat n - unat (i + 1)) * 1024]"
      by simp_all
    have m: "(unat n - unat i) * 1024 = 1024 + (unat n - unat (i + 1)) * 1024"
      using left by simp
    show ?thesis
      using c1 c2 c3 fetched_append [of "flash_ptr s" 1024 "(unat n - unat (i + 1)) * 1024"]
      by (simp only: m) (simp add: add.assoc)
  qed
qed

section \<open>Programming against a target that always gives the same reply\<close>

lemma fctl_poll_steady:
  assumes "scripted (\<lambda>j. b) s" and "t \<noteq> 0"
  shows "\<exists>s' t'. fctl_poll w res t s = Some (Inr (t', 1, b), s')
                 \<and> scripted (\<lambda>j. b) s' \<and> t' \<noteq> 0"
proof (cases "b AND FCTL_BUSY = 0")
  case True
  from fctl_poll_idle [OF assms(1) True, of w res t] assms(2) show ?thesis by blast
next
  case False
  have "(- 1 :: 32 word) \<noteq> 0" by simp
  with fctl_poll_busy [OF assms(1) False, of w res t] show ?thesis by blast
qed

lemma program_block_steady:
  assumes "scripted (\<lambda>j. b) s" and "t \<noteq> 0"
  shows "\<exists>s' t'. program_block i ms res t s = Some (Inr (ms, b, t'), s')
                 \<and> scripted (\<lambda>j. b) s' \<and> t' \<noteq> 0"
proof -
  let ?dbg = "if i AND 0x0001 = 0 then CH_DBG_TO_BUF0 else CH_DBG_TO_BUF1"
  let ?fl = "if i AND 0x0001 = 0 then CH_BUF0_TO_FLASH else CH_BUF1_TO_FLASH"
  from cc2530_write_xdata_memory_steady [OF assms(1), of X_DMAARM ?dbg]
  obtain s1 where 1: "cc2530_write_xdata_memory X_DMAARM ?dbg s = Some (0, s1)"
    and sc1: "scripted (\<lambda>j. b) s1" by blast
  have sc2: "scripted (\<lambda>j. b) (snd (cc2530_burst_write s1))"
    using cc2530_burst_write_scripted [OF sc1] by (simp add: later_const)
  from fctl_poll_steady [OF sc2 assms(2), of 0 res]
  obtain s3 t' where 3: "fctl_poll 0 res t (snd (cc2530_burst_write s1))
                          = Some (Inr (t', 1, b), s3)"
    and sc3: "scripted (\<lambda>j. b) s3" and t': "t' \<noteq> 0" by blast
  from cc2530_write_xdata_memory_steady [OF sc3, of X_DMAARM ?fl]
  obtain s4 where 4: "cc2530_write_xdata_memory X_DMAARM ?fl s3 = Some (0, s4)"
    and sc4: "scripted (\<lambda>j. b) s4" by blast
  from cc2530_write_xdata_memory_steady [OF sc4, of FCTL "0x06"]
  obtain s5 where 5: "cc2530_write_xdata_memory FCTL 0x06 s4 = Some (0, s5)"
    and sc5: "scripted (\<lambda>j. b) s5" by blast
  have "program_block i ms res t s = Some (Inr (ms, b, t'), s5)"
    using 1 3 4 5 t'
    by (cases "i AND 0x0001 = 0") (simp_all add: program_block_def case_prod_beta)
  with sc5 t' show ?thesis by blast
qed

lemma program_blocks_steady:
  "scripted (\<lambda>j. b) s \<Longrightarrow> t \<noteq> 0 \<Longrightarrow>
     \<exists>s' res' t'. program_blocks i n ms res t s = Some (Inr (ms, res', t'), s')
                    \<and> scripted (\<lambda>j. b) s' \<and> t' \<noteq> 0"
proof (induction "unat n - unat i" arbitrary: i s res t rule: less_induct)
  case less
  show ?case
  proof (cases "i < n")
    case False
    then show ?thesis
      using less.prems by (subst program_blocks.simps) simp
  next
    case True
    from program_block_steady [OF less.prems, of i ms res]
    obtain s1 t1 where b: "program_block i ms res t s = Some (Inr (ms, b, t1), s1)"
      and sc1: "scripted (\<lambda>j. b) s1" and t1: "t1 \<noteq> 0" by blast
    have "unat n - unat (i + 1) < unat n - unat i"
      using blocks_left [OF True] by simp
    from less.hyps [OF this sc1 t1, of b]
    show ?thesis using True by (subst program_blocks.simps) (simp add: b)
  qed
qed

lemma program_setup_frame:
  "program_setup s = Some (r, s') \<Longrightarrow>
     env s' = env s \<and> cursor s' = cursor s \<and> (r = 0 \<or> r = - 1)"
  unfolding program_setup_def
  by (auto split: option.splits if_splits
           dest!: cc2530_write_xdata_memory_frame cc2530_write_xdata_memory_block_frame)

lemma program_setup_steady:
  assumes "scripted (\<lambda>j. b) s"
  shows "\<exists>s'. program_setup s = Some (0, s') \<and> scripted (\<lambda>j. b) s'"
proof -
  from cc2530_write_xdata_memory_block_steady [OF assms, of ADDR_DMA_DESC dma_desc]
  obtain s1 where 1: "cc2530_write_xdata_memory_block ADDR_DMA_DESC dma_desc s = Some (0, s1)"
    and sc1: "scripted (\<lambda>j. b) s1" by blast
  from cc2530_write_xdata_memory_steady [OF sc1, of X_DMA1CFGH "HIBYTE ADDR_DMA_DESC"]
  obtain s2 where 2: "cc2530_write_xdata_memory X_DMA1CFGH (HIBYTE ADDR_DMA_DESC) s1
                       = Some (0, s2)"
    and sc2: "scripted (\<lambda>j. b) s2" by blast
  from cc2530_write_xdata_memory_steady [OF sc2, of X_DMA1CFGL "LOBYTE ADDR_DMA_DESC"]
  obtain s3 where 3: "cc2530_write_xdata_memory X_DMA1CFGL (LOBYTE ADDR_DMA_DESC) s2
                       = Some (0, s3)"
    and sc3: "scripted (\<lambda>j. b) s3" by blast
  from cc2530_write_xdata_memory_steady [OF sc3, of FADDRH 0]
  obtain s4 where 4: "cc2530_write_xdata_memory FADDRH 0 s3 = Some (0, s4)"
    and sc4: "scripted (\<lambda>j. b) s4" by blast
  from cc2530_write_xdata_memory_steady [OF sc4, of FADDRL 0]
  show ?thesis by (simp add: program_setup_def 1 2 3 4)
qed

text \<open>Whatever the target does, \<open>cc2530_program_flash\<close> returns 1 or 255.\<close>

lemma cc2530_program_flash_frame:
  "cc2530_program_flash n s = Some (r, s') \<Longrightarrow> env s' = env s \<and> (r = 1 \<or> r = 255)"
  unfolding cc2530_program_flash_def
  by (auto split: option.splits if_splits sum.splits
           dest!: program_setup_frame program_blocks_frame fctl_poll_frame)

lemma cc2530_program_flash_steady:
  assumes "scripted (\<lambda>j. b) s"
  shows "\<exists>s'. cc2530_program_flash n s = Some (1, s') \<and> scripted (\<lambda>j. b) s'"
proof -
  from program_setup_steady [OF assms]
  obtain s1 where 1: "program_setup s = Some (0, s1)"
    and sc1: "scripted (\<lambda>j. b) s1" by blast
  have d: "DEFAULT_TIMEOUT \<noteq> 0" by (simp add: DEFAULT_TIMEOUT_def)
  from program_blocks_steady [OF sc1 d, of 0 n 1 "junk s1"]
  obtain s2 res2 t2
    where 2: "program_blocks 0 n 1 (junk s1) DEFAULT_TIMEOUT s1 = Some (Inr (1, res2, t2), s2)"
      and sc2: "scripted (\<lambda>j. b) s2" by blast
  from fctl_poll_steady [OF sc2 d, of 1 res2]
  obtain s3 t3 where 3: "fctl_poll 1 res2 DEFAULT_TIMEOUT s2 = Some (Inr (t3, 1, b), s3)"
    and sc3: "scripted (\<lambda>j. b) s3" and t3: "t3 \<noteq> 0" by blast
  show ?thesis
    using sc3 t3 by (simp add: cc2530_program_flash_def 1 2 3)
qed

lemma program_blocks_fields:
  "program_blocks i n ms res t s = Some (x, s') \<Longrightarrow>
     ctl_fail s' = ctl_fail s
     \<and> (case x of Inl r \<Rightarrow> r = 255 | Inr y \<Rightarrow>
          ctl_fail s = (\<lambda>k. False) \<longrightarrow>
          flash_ptr s' = flash_ptr s + of_nat ((unat n - unat i) * 1024)
          \<and> fetched s' = fetched s @ map (\<lambda>k. unat (flash_ptr s + of_nat k))
                                         [0..<(unat n - unat i) * 1024])"
  using program_blocks_frame [of i n ms res t s x s']
    program_blocks_cursor [of i n ms res t s _ s']
  by (cases x) (auto simp: env_def)

lemma cc2530_program_flash_cursor:
  "cc2530_program_flash n s = Some (1, s') \<Longrightarrow> ctl_fail s = (\<lambda>k. False) \<Longrightarrow>
     flash_ptr s' = flash_ptr s + of_nat (unat n * 1024)
     \<and> fetched s' = fetched s @ map (\<lambda>k. unat (flash_ptr s + of_nat k)) [0..<unat n * 1024]"
  unfolding cc2530_program_flash_def
  by (auto split: option.splits if_splits sum.splits
           dest!: frame_fields [OF program_setup_frame] program_blocks_fields
                  frame_fields [OF fctl_poll_frame])

lemma quiet_line: "reply_line (\<lambda>j. 0) = (\<lambda>k. False)"
  by (rule ext) (simp add: reply_line_def reply_bit_def)

lemma scripted_quiet_boot:
  "scripted (\<lambda>j. 0) (init_flash_ptr ((boot (\<lambda>k. False) (\<lambda>k. False) mem j)\<lparr>fwdata := fw\<rparr>))"
  "scripted (\<lambda>j. 0) ((boot (\<lambda>k. False) (\<lambda>k. False) mem j)\<lparr>fwdata := fw\<rparr>)"
  by (simp_all add: scripted_def boot_def init_flash_ptr_def quiet_line)

text \<open>Claim C3.  Whatever the target does, the loop
  \<^verbatim>\<open>do { ...; wait = 1; } while (...)\<close> of \<open>cc2530_program_flash\<close> ends with \<open>wait\<close> equal
  to 1, also when its first check finds the controller idle; so the test
  \<^verbatim>\<open>if (i > 0 && wait == 0)\<close> never clears \<open>max_speed\<close>, and \<open>cc2530_program_flash\<close>
  never returns 0.  At a target that is ready at once and never busy, programming two
  blocks returns 1 although the first check after the burst of block 1 finds the
  controller idle.\<close>

theorem cc2530_program_flash_never_slow:
  "map_option (\<lambda>p. case fst p of Inl r \<Rightarrow> 1 | Inr (t', wait, res') \<Rightarrow> wait)
       (fctl_poll 0 res t s) \<noteq> Some 0
   \<and> map_option fst (cc2530_program_flash n s) \<noteq> Some 0
   \<and> map_option fst (cc2530_program_flash 2
         (init_flash_ptr ((boot (\<lambda>k. False) (\<lambda>k. False) mem j)
                            \<lparr>fwdata := replicate 2048 0\<rparr>))) = Some 1"
proof -
  have "map_option (\<lambda>p. case fst p of Inl r \<Rightarrow> 1 | Inr (t', wait, res') \<Rightarrow> wait)
          (fctl_poll 0 res t s) \<noteq> Some (0 :: byte)"
  proof (cases "fctl_poll 0 res t s")
    case None
    then show ?thesis by simp
  next
    case (Some p)
    then have "fctl_poll 0 res t s = Some (fst p, snd p)" by simp
    from fctl_poll_frame [OF this] show ?thesis
      using Some by (auto split: sum.splits)
  qed
  moreover have "map_option fst (cc2530_program_flash n s) \<noteq> Some 0"
  proof (cases "cc2530_program_flash n s")
    case None
    then show ?thesis by simp
  next
    case (Some p)
    then have "cc2530_program_flash n s = Some (fst p, snd p)" by simp
    from cc2530_program_flash_frame [OF this] show ?thesis using Some by auto
  qed
  moreover from cc2530_program_flash_steady
      [OF scripted_quiet_boot(1) [where mem = mem and j = j and fw = "replicate 2048 0"], of 2]
  have "map_option fst (cc2530_program_flash 2
         (init_flash_ptr ((boot (\<lambda>k. False) (\<lambda>k. False) mem j)
                            \<lparr>fwdata := replicate 2048 0\<rparr>))) = Some 1"
    by auto
  ultimately show ?thesis by blast
qed

section \<open>The indices fetched by a programming run\<close>

lemma scripted_quiet_target: "scripted (\<lambda>j. 0) (init_flash_ptr (quiet_target fw))"
  by (simp add: quiet_target_def scripted_quiet_boot)

lemma quiet_target_fields [simp]:
  "ctl_fail (quiet_target fw) = (\<lambda>k. False)" "fetched (quiet_target fw) = []"
  "fwdata (quiet_target fw) = fw" "flash_ptr (quiet_target fw) = 0"
  by (simp_all add: quiet_target_def boot_def)

lemma init_flash_ptr_fields [simp]:
  "flash_ptr (init_flash_ptr s) = 0" "fetched (init_flash_ptr s) = fetched s"
  "ctl_fail (init_flash_ptr s) = ctl_fail s" "fwdata (init_flash_ptr s) = fwdata s"
  "stray (init_flash_ptr s) = stray s" "junk (init_flash_ptr s) = junk s"
  "cmds (init_flash_ptr s) = cmds s" "data_in (init_flash_ptr s) = data_in s"
  "nsamples (init_flash_ptr s) = nsamples s" "nctl (init_flash_ptr s) = nctl s"
  by (simp_all add: init_flash_ptr_def)

lemma blocks_fit: "l \<le> 65535 * 1024 \<Longrightarrow> unat (of_nat (DIV_ROUND_UP l 1024) :: 16 word) = DIV_ROUND_UP l 1024"
proof -
  assume "l \<le> 65535 * 1024"
  then have "DIV_ROUND_UP l 1024 < 65536" by (simp add: DIV_ROUND_UP_def)
  then show ?thesis by (simp add: unat_of_nat)
qed

lemma fetches_within_run:
  assumes "fetched s = map (\<lambda>k. k mod 65536) [0..<DIV_ROUND_UP l 1024 * 1024]" and "0 < l"
  shows "fetches_within l s \<longleftrightarrow> 1024 dvd l \<or> 65536 < l"
proof -
  let ?N = "DIV_ROUND_UP l 1024 * 1024"
  have w: "fetches_within l s \<longleftrightarrow> (\<forall>k<?N. k mod 65536 < l)"
    by (auto simp: fetches_within_def assms(1) filter_empty_conv not_le)
  show ?thesis
  proof (cases "65536 < l")
    case True
    have "k mod 65536 < l" for k
      using True by (meson less_trans mod_less_divisor zero_less_numeral)
    then show ?thesis using True w by simp
  next
    case False
    then have n: "?N \<le> 65536" by (simp add: DIV_ROUND_UP_def)
    have "(\<forall>k<?N. k mod 65536 < l) \<longleftrightarrow> ?N \<le> l"
    proof
      assume a: "\<forall>k<?N. k mod 65536 < l"
      show "?N \<le> l"
      proof (rule ccontr)
        assume "\<not> ?N \<le> l"
        then have "l < ?N" by simp
        with a have "l mod 65536 < l" by blast
        moreover have "l < 65536" using \<open>l < ?N\<close> n by simp
        ultimately show False by simp
      qed
    next
      assume "?N \<le> l"
      then show "\<forall>k<?N. k mod 65536 < l"
        using n by (auto intro: le_less_trans [OF mod_less_eq_dividend])
    qed
    moreover have "?N \<le> l \<longleftrightarrow> 1024 dvd l"
    proof
      assume a: "?N \<le> l"
      define B where "B = DIV_ROUND_UP l 1024"
      have B: "B = (l + 1023) div 1024" by (simp add: B_def DIV_ROUND_UP_def)
      have "B * 1024 + (l + 1023) mod 1024 = l + 1023"
        unfolding B by (rule div_mult_mod_eq)
      moreover have "(l + 1023) mod 1024 < 1024" by simp
      ultimately have "l \<le> B * 1024" by linarith
      moreover have "B * 1024 \<le> l" using a by (simp only: B_def)
      ultimately have "l = B * 1024" by (rule antisym)
      then show "1024 dvd l" by (metis dvd_triv_right)
    next
      assume "1024 dvd l"
      then obtain m where m: "l = 1024 * m" ..
      have "(m * 1024 + 1023) div 1024 = (m :: nat)" by simp
      then have "DIV_ROUND_UP l 1024 = m"
        by (simp add: DIV_ROUND_UP_def m mult.commute)
      then show "?N \<le> l" by (simp add: m)
    qed
    ultimately show ?thesis using False w by simp
  qed
qed





section \<open>What the remaining operations leave alone\<close>

declare erase_poll.simps [simp del] verify_bank.simps [simp del] verify_banks.simps [simp del]
  enable_dma_loop.simps [simp del] clkconsta_poll.simps [simp del]
  ext_addr_loop.simps [simp del] identify_retry.simps [simp del]

lemma cc2530_do_cmd_frame:
  "cc2530_do_cmd cmd params s = Some (r, a, s') \<Longrightarrow>
     env s' = env s \<and> cursor s' = cursor s \<and> (r = 0 \<or> r = - 1)"
  using cc2530_do_cmd_wire(1,2) [of cmd params s r a s'] env_wire [of s s'] by blast

lemma erase_poll_frame:
  "erase_poll cmd res t s = Some (x, s') \<Longrightarrow>
     env s' = env s \<and> cursor s' = cursor s \<and> (case x of Inl r \<Rightarrow> r = - 1 | Inr t' \<Rightarrow> True)"
proof (induction "unat t" arbitrary: t s res rule: less_induct)
  case less
  have ih: "erase_poll cmd res' (t - 1) s1 = Some (x, s') \<Longrightarrow>
            t \<noteq> 0 \<longrightarrow> env s' = env s1 \<and> cursor s' = cursor s1
              \<and> (case x of Inl r \<Rightarrow> r = - 1 | Inr t' \<Rightarrow> True)"
    for res' s1
    using less.hyps [of "t - 1" res' s1] unat_pred_less [of t] by blast
  from less.prems show ?case
    by (subst (asm) erase_poll.simps)
       (auto split: option.splits if_splits dest!: cc2530_do_cmd_frame ih)
qed

lemma cc2530_chip_erase_frame:
  "cc2530_chip_erase s = Some (r, s') \<Longrightarrow>
     env s' = env s \<and> cursor s' = cursor s \<and> (r = 0 \<or> r = - 1)"
  unfolding cc2530_chip_erase_def Let_def
  by (auto split: option.splits if_splits sum.splits
           dest!: cc2530_do_cmd_frame erase_poll_frame)

lemma get_next_flash_byte_env: "env (snd (get_next_flash_byte s)) = env s"
  by (simp add: env_def)

lemma verify_bank_frame:
  "verify_bank c i addr max_addr s = Some (x, s') \<Longrightarrow>
     find_cmd_by_name (cmds s) ''debug_inst'' = Some c \<longrightarrow> env s' = env s"
proof (induction "32 * 1024 - i" arbitrary: i addr s rule: less_induct)
  case less
  have ih: "verify_bank c (Suc i) addr1 max_addr s1 = Some (x, s') \<Longrightarrow>
            i < 32 * 1024 \<longrightarrow> find_cmd_by_name (cmds s1) ''debug_inst'' = Some c
              \<longrightarrow> env s' = env s1"
    for addr1 s1
    using less.hyps [of "Suc i" addr1 s1] by auto
  have g: "get_next_flash_byte s1 = (b, s2) \<Longrightarrow>
           env s2 = env s1 \<and> cmds s2 = cmds s1" for s1 b s2
    using get_next_flash_byte_env [of s1] by (auto simp: get_next_flash_byte_def)
  from less.prems show ?case
    by (subst (asm) verify_bank.simps)
       (auto split: option.splits if_splits prod.splits dest!: debug_instr_frame g ih)
qed

lemma verify_banks_frame:
  "verify_banks bank addr max_addr s = Some (r, s') \<Longrightarrow> env s' = env s"
proof (induction "8 - bank" arbitrary: bank addr s rule: less_induct)
  case less
  have ih: "verify_banks (Suc bank) addr1 max_addr s1 = Some (r, s') \<Longrightarrow>
            bank < 8 \<longrightarrow> env s' = env s1"
    for addr1 s1
    using less.hyps [of "Suc bank" addr1 s1] by auto
  from less.prems show ?case
    by (subst (asm) verify_banks.simps)
       (auto split: option.splits if_splits sum.splits
             dest!: cc2530_write_xdata_memory_frame debug_instr_frame verify_bank_frame ih)
qed

lemma cc2530_flash_verify_frame:
  "cc2530_flash_verify max_addr s = Some (r, s') \<Longrightarrow> env s' = env s"
  unfolding cc2530_flash_verify_def by (rule verify_banks_frame)

lemma cc2530_enter_debug_env:
  "env (cc2530_enter_debug s) = env s" "cursor (cc2530_enter_debug s) = cursor s"
  by (simp_all add: env_def cursor_def)

lemma enable_dma_loop_frame:
  "enable_dma_loop n res s = Some (x, s') \<Longrightarrow>
     env s' = env s \<and> cursor s' = cursor s \<and> (case x of Inl r \<Rightarrow> r = - 1 | Inr y \<Rightarrow> True)"
proof (induction "unat n" arbitrary: n s res rule: less_induct)
  case less
  have ih: "enable_dma_loop (n - 1) res' (cc2530_enter_debug s1) = Some (x, s') \<Longrightarrow>
            n \<noteq> 0 \<longrightarrow> env s' = env s1 \<and> cursor s' = cursor s1
              \<and> (case x of Inl r \<Rightarrow> r = - 1 | Inr y \<Rightarrow> True)"
    for res' s1
    using less.hyps [of "n - 1" res' "cc2530_enter_debug s1"] unat_pred_less [of n]
    by (auto simp: cc2530_enter_debug_env)
  from less.prems show ?case
    by (subst (asm) enable_dma_loop.simps)
       (auto split: option.splits if_splits dest!: cc2530_do_cmd_frame ih)
qed

lemma clkconsta_poll_frame:
  "clkconsta_poll res t s = Some (x, s') \<Longrightarrow>
     env s' = env s \<and> cursor s' = cursor s \<and> (case x of Inl r \<Rightarrow> r = - 1 | Inr y \<Rightarrow> True)"
proof (induction "unat t" arbitrary: t s res rule: less_induct)
  case less
  have ih: "clkconsta_poll res' (t - 1) s1 = Some (x, s') \<Longrightarrow>
            t \<noteq> 0 \<longrightarrow> env s' = env s1 \<and> cursor s' = cursor s1
              \<and> (case x of Inl r \<Rightarrow> r = - 1 | Inr y \<Rightarrow> True)"
    for res' s1
    using less.hyps [of "t - 1" res' s1] unat_pred_less [of t] by blast
  from less.prems show ?case
    by (subst (asm) clkconsta_poll.simps)
       (auto split: option.splits if_splits dest!: cc2530_read_xdata_memory_frame ih)
qed

lemma init_flash_ptr_env: "env (init_flash_ptr s) = env s"
  by (simp add: env_def)

lemma cc2530_leave_debug_env: "env (cc2530_leave_debug s) = env s"
  by (simp add: env_def)

lemma cc2530_do_program_frame:
  "cc2530_do_program fwsize rb s = Some (r, s') \<Longrightarrow> env s' = env s \<and> (r = 0 \<or> r = - 1)"
  unfolding cc2530_do_program_def Let_def
  by (auto split: option.splits if_splits sum.splits
           simp: init_flash_ptr_env cc2530_leave_debug_env
           dest!: enable_dma_loop_frame cc2530_write_xdata_memory_frame clkconsta_poll_frame
                  cc2530_chip_erase_frame cc2530_program_flash_frame cc2530_flash_verify_frame)

lemma ext_addr_loop_frame:
  "ext_addr_loop i res s = Some (r, res', s') \<Longrightarrow>
     env s' = env s \<and> cursor s' = cursor s \<and> (r = 0 \<or> r = - 1)"
proof (induction "7 - i" arbitrary: i s res rule: less_induct)
  case less
  have ih: "ext_addr_loop (Suc i) res1 s1 = Some (r, res', s') \<Longrightarrow>
            i < 7 \<longrightarrow> env s' = env s1 \<and> cursor s' = cursor s1 \<and> (r = 0 \<or> r = - 1)"
    for res1 s1
    using less.hyps [of "Suc i" res1 s1] by auto
  from less.prems show ?case
    by (subst (asm) ext_addr_loop.simps)
       (auto split: option.splits if_splits dest!: cc2530_read_xdata_memory_frame ih)
qed

lemma gpio_set_direction_pair:
  "gpio_set_direction n d s = (r, s') \<Longrightarrow>
     env s' = env s \<and> cursor s' = cursor s \<and> (r = 0 \<or> r = - 1)"
  by (auto simp: gpio_set_direction_def env_def cursor_def split: if_splits)

lemma gpio_export_pair:
  "gpio_export n s = (r, s') \<Longrightarrow>
     env s' = env s \<and> cursor s' = cursor s \<and> (r = 0 \<or> r = - 1)"
  by (auto simp: gpio_export_def env_def cursor_def split: if_splits)

lemma gpio_unexport_pair:
  "gpio_unexport n s = (r, s') \<Longrightarrow>
     env s' = env s \<and> cursor s' = cursor s \<and> (r = 0 \<or> r = - 1)"
  by (auto simp: gpio_unexport_def env_def cursor_def split: if_splits)

lemma cc2530_chip_identify_frame:
  "cc2530_chip_identify fs s = Some (r, fs', s') \<Longrightarrow>
     env s' = env s \<and> cursor s' = cursor s"
  unfolding cc2530_chip_identify_def Let_def
  by (auto split: option.splits if_splits prod.splits
           dest!: gpio_set_direction_pair cc2530_do_cmd_frame ext_addr_loop_frame
                  cc2530_read_xdata_memory_frame)

lemma identify_retry_frame:
  "identify_retry n ret fs s = Some (n', ret', fs', s') \<Longrightarrow>
     env s' = env s \<and> cursor s' = cursor s"
proof (induction "unat n" arbitrary: n s ret fs rule: less_induct)
  case less
  have ih: "identify_retry (n - 1) ret1 fs1 s1 = Some (n', ret', fs', s') \<Longrightarrow>
            n \<noteq> 0 \<longrightarrow> env s' = env s1 \<and> cursor s' = cursor s1"
    for ret1 fs1 s1
    using less.hyps [of "n - 1" ret1 fs1 s1] unat_pred_less [of n] by blast
  from less.prems show ?case
    by (subst (asm) identify_retry.simps)
       (auto split: option.splits if_splits dest!: cc2530_chip_identify_frame ih)
qed

lemma cc2530_oneshot_command_frame:
  "cc2530_oneshot_command c s = Some (r, s') \<Longrightarrow> env s' = env s \<and> cursor s' = cursor s"
  unfolding cc2530_oneshot_command_def
  by (auto split: option.splits if_splits dest!: cc2530_do_cmd_frame)

lemma gpio_init_loop_pair:
  "gpio_init_loop gs s = (r, s') \<Longrightarrow> env s' = env s \<and> cursor s' = cursor s"
  by (induction gs arbitrary: s)
     (auto split: prod.splits if_splits dest!: gpio_export_pair gpio_set_direction_pair)

lemma gpio_deinit_loop_pair:
  "gpio_deinit_loop gs s = (r, s') \<Longrightarrow> env s' = env s \<and> cursor s' = cursor s"
  by (induction gs arbitrary: s)
     (auto split: prod.splits if_splits dest!: gpio_unexport_pair gpio_set_direction_pair)

lemma main_out_frame:
  "main_out ret s = Some (r, s') \<Longrightarrow> env s' = env s \<and> cursor s' = cursor s \<and> r = ret"
  unfolding main_out_def cc2530_gpio_deinit_def
  by (auto split: prod.splits dest!: gpio_deinit_loop_pair
           simp: cc2530_leave_debug_env cursor_def)

lemma env_table: "env s' = env s \<and> Q \<Longrightarrow> map frozen (cmds s') = map frozen (cmds s)"
  by (simp add: env_def)

lemma env_table': "env s' = env s \<Longrightarrow> map frozen (cmds s') = map frozen (cmds s)"
  by (simp add: env_def)

lemma main_table:
  "main args s = Some (r, s') \<Longrightarrow> map frozen (cmds s') = map frozen (cmds s)"
  unfolding main_def cc2530_gpio_init_def Let_def
  by (auto split: option.splits if_splits prod.splits
           dest!: env_table [OF gpio_init_loop_pair] env_table [OF main_out_frame]
                  env_table [OF cc2530_chip_identify_frame]
                  env_table [OF cc2530_oneshot_command_frame]
                  env_table [OF identify_retry_frame]
                  env_table [OF cc2530_do_program_frame]
           simp: env_table' [OF cc2530_enter_debug_env(1)])

section \<open>The command table\<close>

lemma debug_instr_cmds:
  "debug_instr c n instr s = Some (r, a, s') \<Longrightarrow>
     cmds s' = (cmds s)[c := (cmds s ! c)\<lparr>cmd_in := n\<rparr>]"
  using cc2530_do_cmd_wire(1) [of "Some c" instr "set_cmd_in c n s" r a s']
  by (simp add: debug_instr_def wire_only_eq)

lemma cc2530_write_xdata_memory_cmds:
  "cc2530_write_xdata_memory addr v s = Some (0, s') \<Longrightarrow>
     \<exists>c. find_cmd_by_name (cmds s) ''debug_inst'' = Some c
         \<and> cmds s' = (cmds s)[c := (cmds s ! c)\<lparr>cmd_in := 1\<rparr>]"
  unfolding cc2530_write_xdata_memory_def
  apply (auto split: option.splits if_splits dest!: debug_instr_cmds)
  apply (frule find_cmd_by_name_bound)
  apply simp
  done

lemma run_op_table:
  assumes a: "run_op op s = Some s'"
  shows "map frozen (cmds s') = map frozen (cmds s)"
proof (cases op)
  case (Do_cmd cmd params)
  with a show ?thesis
    by (auto dest!: env_table [OF cc2530_do_cmd_frame])
next
  case Burst_write
  with a show ?thesis
    using cc2530_burst_write_env [of s] by (auto simp: env_def)
next
  case Enter_debug
  with a show ?thesis by auto
next
  case Leave_debug
  with a show ?thesis by auto
next
  case Gpio_init
  with a show ?thesis
    using gpio_init_loop_pair [of gpios s "fst (cc2530_gpio_init s)" "snd (cc2530_gpio_init s)"]
    by (auto simp: cc2530_gpio_init_def env_def)
next
  case Gpio_deinit
  with a show ?thesis
    using gpio_deinit_loop_pair [of gpios s "fst (cc2530_gpio_deinit s)"
                                    "snd (cc2530_gpio_deinit s)"]
    by (auto simp: cc2530_gpio_deinit_def env_def)
next
  case Chip_erase
  with a show ?thesis by (auto dest!: env_table [OF cc2530_chip_erase_frame])
next
  case (Write_xdata_memory addr v)
  with a show ?thesis by (auto dest!: env_table [OF cc2530_write_xdata_memory_frame])
next
  case (Read_xdata_memory addr res)
  with a show ?thesis by (auto dest!: env_table [OF cc2530_read_xdata_memory_frame])
next
  case (Write_xdata_memory_block addr vs)
  with a show ?thesis by (auto dest!: env_table [OF cc2530_write_xdata_memory_block_frame])
next
  case (Flash_verify m)
  with a show ?thesis by (auto dest!: env_table' [OF cc2530_flash_verify_frame])
next
  case (Program_flash n)
  with a show ?thesis by (auto dest!: env_table [OF cc2530_program_flash_frame])
next
  case (Chip_identify fs)
  with a show ?thesis by (auto dest!: env_table [OF cc2530_chip_identify_frame])
next
  case (Do_program l rb)
  with a show ?thesis by (auto dest!: env_table [OF cc2530_do_program_frame])
next
  case (Oneshot_command c)
  with a show ?thesis by (auto dest!: env_table [OF cc2530_oneshot_command_frame])
next
  case (Main_function args)
  with a show ?thesis by (auto dest!: main_table)
qed

lemma quiet_target_scripted: "scripted (\<lambda>j. 0) (quiet_target fw)"
  by (simp add: quiet_target_def scripted_quiet_boot)

lemma quiet_target_cmds: "cmds (quiet_target fw) = cc2530_commands"
  by (simp add: quiet_target_def boot_def)

lemma debug_inst_entry:
  "cmd_in (cc2530_commands ! 7) = 255" "cmd_name (cc2530_commands ! 7) = ''debug_inst''"
  "length cc2530_commands = 12"
  by (simp_all add: cc2530_commands_def)

text \<open>Claim C8 as stated fails.  On a target that answers every command, writing one
  byte of XDATA leaves the table different from the initial one: the \<open>debug_inst\<close>
  entry, declared with the input count 255, now has the input count 1.\<close>

theorem command_table_counterexample:
  "cmds (quiet_target []) = cc2530_commands
   \<and> map_option fst (cc2530_write_xdata_memory X_MEMCTR 0 (quiet_target [])) = Some 0
   \<and> cmds (snd (the (cc2530_write_xdata_memory X_MEMCTR 0 (quiet_target []))))
       \<noteq> cc2530_commands
   \<and> cmd_name (cc2530_commands ! 7) = ''debug_inst''
   \<and> cmd_in (cc2530_commands ! 7) = 255
   \<and> cmd_in (cmds (snd (the (cc2530_write_xdata_memory X_MEMCTR 0 (quiet_target [])))) ! 7)
       = 1"
proof -
  from cc2530_write_xdata_memory_steady [OF quiet_target_scripted, where fw1 = "[]" and addr = X_MEMCTR and v = 0]
  obtain s' where r: "cc2530_write_xdata_memory X_MEMCTR 0 (quiet_target []) = Some (0, s')"
    by blast
  from cc2530_write_xdata_memory_cmds [OF r]
  have c: "cmds s' = cc2530_commands[7 := (cc2530_commands ! 7)\<lparr>cmd_in := 1\<rparr>]"
    by (simp add: quiet_target_cmds find_builtin)
  have i: "cmd_in (cmds s' ! 7) = 1" unfolding c by (simp add: debug_inst_entry)
  have "cmds s' \<noteq> cc2530_commands"
  proof
    assume "cmds s' = cc2530_commands"
    with i have "cmd_in (cc2530_commands ! 7) = 1" by (simp only:)
    then show False by (simp only: debug_inst_entry) simp
  qed
  with i show ?thesis unfolding r by (simp add: quiet_target_cmds debug_inst_entry)
qed

text \<open>Claim C8, as amended.  No operation of the program (a command exchange, a burst
  write, entering or leaving debug mode, GPIO set-up and release, chip erase, the XDATA
  accesses, verification, flash programming, identification, a programming run, a
  one-shot command, the whole of \<open>main\<close>) changes the name, the opcode or the output
  byte count of any entry of the command table, or the input byte count of any entry
  other than \<open>debug_inst\<close>; the table keeps its length and order.  The input byte count
  of the \<open>debug_inst\<close> entry is the one field that is rewritten: a successful
  \<open>cc2530_write_xdata_memory\<close> leaves it at 1.\<close>

theorem command_table_frozen_part:
  "(run_op op s = Some s' \<longrightarrow> map frozen (cmds s') = map frozen (cmds s))
   \<and> (cc2530_write_xdata_memory addr v s = Some (0, s1) \<longrightarrow>
        (\<exists>c. find_cmd_by_name (cmds s) ''debug_inst'' = Some c
           \<and> cmds s1 = (cmds s)[c := (cmds s ! c)\<lparr>cmd_in := 1\<rparr>]))
   \<and> map frozen cc2530_commands =
       map (\<lambda>c. (cmd_name c, cmd_id c, cmd_out c,
                  if cmd_name c = ''debug_inst'' then None else Some (cmd_in c)))
           cc2530_commands"
proof (intro conjI impI)
  assume "run_op op s = Some s'"
  then show "map frozen (cmds s') = map frozen (cmds s)" by (rule run_op_table)
next
  assume "cc2530_write_xdata_memory addr v s = Some (0, s1)"
  then show "\<exists>c. find_cmd_by_name (cmds s) ''debug_inst'' = Some c
           \<and> cmds s1 = (cmds s)[c := (cmds s ! c)\<lparr>cmd_in := 1\<rparr>]"
    by (rule cc2530_write_xdata_memory_cmds)
next
  show "map frozen cc2530_commands =
       map (\<lambda>c. (cmd_name c, cmd_id c, cmd_out c,
                  if cmd_name c = ''debug_inst'' then None else Some (cmd_in c)))
           cc2530_commands"
    by (simp add: cc2530_commands_def frozen_def c_str_def NUL_def)
qed

theorem command_table_frozen_part_witness:
  "run_op (Write_xdata_memory X_MEMCTR 0) (quiet_target []) \<noteq> None
   \<and> map frozen (cmds (the (run_op (Write_xdata_memory X_MEMCTR 0) (quiet_target []))))
       = map frozen cc2530_commands
   \<and> map_option fst (cc2530_write_xdata_memory X_MEMCTR 0 (quiet_target [])) = Some 0
   \<and> find_cmd_by_name (cmds (quiet_target [])) ''debug_inst'' = Some 7
   \<and> cmds (the (run_op (Write_xdata_memory X_MEMCTR 0) (quiet_target [])))
       = cc2530_commands[7 := (cc2530_commands ! 7)\<lparr>cmd_in := 1\<rparr>]"
proof -
  from cc2530_write_xdata_memory_steady [OF quiet_target_scripted, where fw1 = "[]" and addr = X_MEMCTR and v = 0]
  obtain s' where r: "cc2530_write_xdata_memory X_MEMCTR 0 (quiet_target []) = Some (0, s')"
    by blast
  have o: "run_op (Write_xdata_memory X_MEMCTR 0) (quiet_target []) = Some s'"
    by (simp add: r)
  note t = command_table_frozen_part
         [of "Write_xdata_memory X_MEMCTR 0" "quiet_target []" s' X_MEMCTR 0 s']
  from t o have A: "map frozen (cmds s') = map frozen cc2530_commands"
    by (simp add: quiet_target_cmds)
  from t r have B: "cmds s' = cc2530_commands[7 := (cc2530_commands ! 7)\<lparr>cmd_in := 1\<rparr>]"
    by (simp add: quiet_target_cmds find_builtin)
  have c1: "run_op (Write_xdata_memory X_MEMCTR 0) (quiet_target []) \<noteq> None"
    by (simp add: r)
  have c2: "map frozen (cmds (the (run_op (Write_xdata_memory X_MEMCTR 0) (quiet_target []))))
            = map frozen cc2530_commands"
    unfolding o option.sel by (rule A)
  have c3: "map_option fst (cc2530_write_xdata_memory X_MEMCTR 0 (quiet_target [])) = Some 0"
    by (simp add: r)
  have c4: "find_cmd_by_name (cmds (quiet_target [])) ''debug_inst'' = Some 7"
    by (simp add: quiet_target_cmds find_builtin)
  have c5: "cmds (the (run_op (Write_xdata_memory X_MEMCTR 0) (quiet_target [])))
            = cc2530_commands[7 := (cc2530_commands ! 7)\<lparr>cmd_in := 1\<rparr>]"
    unfolding o option.sel by (rule B)
  from c1 c2 c3 c4 c5 show ?thesis by blast
qed

end
